theory Spec2Isabelle
  imports Complex_Main
begin

unbundle bit_operations_syntax

section \<open>HydrogenNucleusHelper: locations, exchange rates and swap amounts\<close>

text \<open>
  A shallow embedding of \<^verbatim>\<open>src/lib/utils/HydrogenNucleusHelper.ts\<close>. The helper
  works on \<^verbatim>\<open>ethers.BigNumber\<close> values (ethers v5, on top of bn.js) and on hex
  strings. A BigNumber is an arbitrary-precision signed integer, modelled as \<open>int\<close>;
  a JavaScript string is a \<open>string\<close> (the strings the helper reads and writes are
  ASCII, where a character is one unit of length in both); every \<^verbatim>\<open>throw\<close> of the
  helper and every fault of the library calls it makes is a value \<open>Inl e\<close> of the
  result type \<open>error + 'a\<close>. The spec's amounts, rates and pool ids are unsigned; a
  BigNumber may be negative, and the model says what the library does then.
\<close>

subsection \<open>Errors\<close>

datatype error =
    CannotEncodeExchangeRate int int
      \<comment> \<open>thrown by \<^verbatim>\<open>encodeExchangeRate\<close>, with the two values received\<close>
  | PoolCannotExchange
      \<comment> \<open>"HydrogenNucleusHelper: pool cannot exchange these tokens"\<close>
  | InvalidBigNumberString
      \<comment> \<open>\<^verbatim>\<open>BigNumber.from\<close> on a string that is neither hex nor decimal\<close>
  | NumericOverflow
      \<comment> \<open>\<^verbatim>\<open>BigNumber.from\<close> on a number outside the safe integers, \<^verbatim>\<open>toNumber\<close>\<close>
  | DivisionByZero
      \<comment> \<open>\<^verbatim>\<open>div\<close> by zero, \<^verbatim>\<open>mod\<close> by a negative value\<close>
  | UnboundBitwiseResult
      \<comment> \<open>\<^verbatim>\<open>and\<close> with a negative operand\<close>
  | AssertionFailed
      \<comment> \<open>an assertion of bn.js: shifting a negative value, \<^verbatim>\<open>umod\<close> by zero, a bad digit\<close>
  | InvalidArrayify
      \<comment> \<open>\<^verbatim>\<open>arrayify\<close> on a string that is not \<^verbatim>\<open>0x\<close> and hex digits\<close>
  | HexDataOddLength
  | ValueOutOfRange
      \<comment> \<open>\<^verbatim>\<open>zeroPad\<close> on more bytes than the width\<close>
  | InvalidAddress
  | BadAddressChecksum

subsection \<open>Characters and digits\<close>

definition digitChar :: "nat \<Rightarrow> char" where
  "digitChar d = ''0123456789abcdef'' ! d"

definition decDigitValue :: "char \<Rightarrow> nat option" where
  "decDigitValue c =
     (let n = (of_char c :: nat)
      in if 48 \<le> n \<and> n \<le> 57 then Some (n - 48) else None)"

definition hexDigitValue :: "char \<Rightarrow> nat option" where
  "hexDigitValue c =
     (let n = (of_char c :: nat)
      in if 48 \<le> n \<and> n \<le> 57 then Some (n - 48)
         else if 97 \<le> n \<and> n \<le> 102 then Some (n - 87)
         else if 65 \<le> n \<and> n \<le> 70 then Some (n - 55)
         else None)"

definition isHexDigit :: "char \<Rightarrow> bool" where
  "isHexDigit c = (hexDigitValue c \<noteq> None)"

definition isUpperHexLetter :: "char \<Rightarrow> bool" where
  "isUpperHexLetter c = (65 \<le> (of_char c :: nat) \<and> (of_char c :: nat) \<le> 70)"

definition isLowerHexLetter :: "char \<Rightarrow> bool" where
  "isLowerHexLetter c = (97 \<le> (of_char c :: nat) \<and> (of_char c :: nat) \<le> 102)"

definition toLowerCaseChar :: "char \<Rightarrow> char" where
  "toLowerCaseChar c =
     (let n = (of_char c :: nat) in if 65 \<le> n \<and> n \<le> 90 then char_of (n + 32) else c)"

definition toUpperCaseChar :: "char \<Rightarrow> char" where
  "toUpperCaseChar c =
     (let n = (of_char c :: nat) in if 97 \<le> n \<and> n \<le> 122 then char_of (n - 32) else c)"

text \<open>
  \<^verbatim>\<open>s.substring(a, b)\<close> for \<open>a \<le> b\<close>, the only way the helper calls it: the characters
  from index \<open>a\<close> up to, not including, index \<open>b\<close>, as many as the string has.
\<close>

definition substring :: "string \<Rightarrow> nat \<Rightarrow> nat \<Rightarrow> string" where
  "substring s a b = take (b - a) (drop a s)"

text \<open>Reading a digit string in a base, most significant digit first.\<close>

fun parseDigits :: "nat \<Rightarrow> (char \<Rightarrow> nat option) \<Rightarrow> nat \<Rightarrow> string \<Rightarrow> nat option" where
  "parseDigits base val acc [] = Some acc"
| "parseDigits base val acc (c # cs) =
     (case val c of
        None \<Rightarrow> None
      | Some d \<Rightarrow> parseDigits base val (base * acc + d) cs)"

text \<open>Writing a natural number in base 16 or 10: no leading zero, \<open>0\<close> is one digit.\<close>

function digitsOfNat :: "nat \<Rightarrow> nat \<Rightarrow> string" where
  "digitsOfNat base n =
     (if base < 2 \<or> n < base then [digitChar n]
      else digitsOfNat base (n div base) @ [digitChar (n mod base)])"
  by pat_completeness auto
termination
  by (relation "measure (\<lambda>(base, n). n)") auto

declare digitsOfNat.simps [simp del]

subsection \<open>ethers BigNumber\<close>

definition MAX_SAFE :: int where
  "MAX_SAFE = 9007199254740991"

text \<open>
  \<^verbatim>\<open>BigNumber.from(value)\<close> on a string: \<^verbatim>\<open>/^-?0x[0-9a-f]+$/i\<close> reads hex,
  \<^verbatim>\<open>/^-?[0-9]+$/\<close> reads decimal, anything else is refused. The case-insensitive flag
  also lets the prefix be \<^verbatim>\<open>0X\<close>; the BigNumber built from it keeps the \<^verbatim>\<open>X\<close> in its hex
  text and bn.js refuses that character at the first use of the value, which every caller
  below reaches, so the model reports that failure at the conversion.
\<close>

definition BN_from_string :: "string \<Rightarrow> error + int" where
  "BN_from_string v =
     (let negative = (take 1 v = ''-'');
          body = (if negative then drop 1 v else v);
          sign = (if negative then - 1 else 1 :: int)
      in if take 2 body = ''0x'' \<and> drop 2 body \<noteq> [] \<and> list_all isHexDigit (drop 2 body) then
           (case parseDigits 16 hexDigitValue 0 (drop 2 body) of
              Some n \<Rightarrow> Inr (sign * int n)
            | None \<Rightarrow> Inl InvalidBigNumberString)
         else if take 2 body = ''0X'' \<and> drop 2 body \<noteq> [] \<and> list_all isHexDigit (drop 2 body) then
           Inl AssertionFailed
         else if body \<noteq> [] then
           (case parseDigits 10 decDigitValue 0 body of
              Some n \<Rightarrow> Inr (sign * int n)
            | None \<Rightarrow> Inl InvalidBigNumberString)
         else Inl InvalidBigNumberString)"

text \<open>
  \<^verbatim>\<open>BigNumber.from(value)\<close> on a number. The model's numbers are the integer-valued
  ones; a safe integer converts to itself, any other is an overflow fault.
\<close>

definition BN_from_number :: "int \<Rightarrow> error + int" where
  "BN_from_number v = (if v \<ge> MAX_SAFE \<or> v \<le> - MAX_SAFE then Inl NumericOverflow else Inr v)"

definition BN_toNumber :: "int \<Rightarrow> error + int" where
  "BN_toNumber a = (if \<bar>a\<bar> \<ge> 2 ^ 53 then Inl NumericOverflow else Inr a)"

text \<open>\<^verbatim>\<open>toHexString()\<close>: \<^verbatim>\<open>0x\<close> and an even number of lowercase hex digits, \<^verbatim>\<open>0x00\<close> for zero.\<close>

definition evenHex :: "nat \<Rightarrow> string" where
  "evenHex n = (let h = digitsOfNat 16 n in if odd (length h) then CHR ''0'' # h else h)"

definition BN_toHexString :: "int \<Rightarrow> string" where
  "BN_toHexString a =
     (if a < 0 then ''-0x'' @ evenHex (nat (- a)) else ''0x'' @ evenHex (nat a))"

text \<open>\<^verbatim>\<open>toString()\<close>, which a template literal applies: the decimal digits.\<close>

definition BN_toString :: "int \<Rightarrow> string" where
  "BN_toString a =
     (if a < 0 then ''-'' @ digitsOfNat 10 (nat (- a)) else digitsOfNat 10 (nat a))"

text \<open>
  \<^verbatim>\<open>div\<close> faults on a zero divisor and truncates towards zero; \<^verbatim>\<open>mod\<close> faults on a negative
  divisor, fails bn.js's assertion on zero and is never negative (\<^verbatim>\<open>umod\<close>).
\<close>

definition BN_div :: "int \<Rightarrow> int \<Rightarrow> error + int" where
  "BN_div a b = (if b = 0 then Inl DivisionByZero else Inr (sgn a * sgn b * (\<bar>a\<bar> div \<bar>b\<bar>)))"

definition BN_mod :: "int \<Rightarrow> int \<Rightarrow> error + int" where
  "BN_mod a b =
     (if b < 0 then Inl DivisionByZero
      else if b = 0 then Inl AssertionFailed
      else Inr (a mod b))"

text \<open>The shifts assert that the value is not negative; \<^verbatim>\<open>and\<close> faults on a negative operand.\<close>

definition BN_shl :: "int \<Rightarrow> nat \<Rightarrow> error + int" where
  "BN_shl a n = (if a < 0 then Inl AssertionFailed else Inr (push_bit n a))"

definition BN_shr :: "int \<Rightarrow> nat \<Rightarrow> error + int" where
  "BN_shr a n = (if a < 0 then Inl AssertionFailed else Inr (drop_bit n a))"

definition BN_and :: "int \<Rightarrow> int \<Rightarrow> error + int" where
  "BN_and a b = (if a < 0 \<or> b < 0 then Inl UnboundBitwiseResult else Inr (a AND b))"

subsection \<open>ethers byte utilities\<close>

text \<open>\<^verbatim>\<open>arrayify\<close> on a string: the bytes of \<^verbatim>\<open>0x\<close> and an even number of hex digits.\<close>

fun bytesOfHex :: "string \<Rightarrow> nat list" where
  "bytesOfHex (a # b # cs) =
     (16 * (case hexDigitValue a of Some h \<Rightarrow> h | None \<Rightarrow> 0)
       + (case hexDigitValue b of Some l \<Rightarrow> l | None \<Rightarrow> 0)) # bytesOfHex cs"
| "bytesOfHex cs = []"

definition arrayify :: "string \<Rightarrow> error + nat list" where
  "arrayify v =
     (if take 2 v = ''0x'' \<and> list_all isHexDigit (drop 2 v) then
        (if odd (length (drop 2 v)) then Inl HexDataOddLength
         else Inr (bytesOfHex (drop 2 v)))
      else Inl InvalidArrayify)"

definition zeroPad :: "string \<Rightarrow> nat \<Rightarrow> error + nat list" where
  "zeroPad v len =
     (case arrayify v of
        Inl e \<Rightarrow> Inl e
      | Inr bytes \<Rightarrow>
          if length bytes > len then Inl ValueOutOfRange
          else Inr (replicate (len - length bytes) 0 @ bytes))"

definition hexlify :: "nat list \<Rightarrow> string" where
  "hexlify bytes =
     ''0x'' @ concat (map (\<lambda>b. [digitChar (b div 16), digitChar (b mod 16)]) bytes)"

subsection \<open>Constants of the helper\<close>

definition MaxUint128 :: int where
  "MaxUint128 = 2 ^ 128 - 1"

definition MAX_PPM :: int where
  "MAX_PPM = 1000000"

definition AddressZero :: string where
  "AddressZero = ''0x0000000000000000000000000000000000000000''"

subsection \<open>Location functions\<close>

text \<open>The loop \<^verbatim>\<open>while(num.length < 62) num = `0${num}`\<close> of \<^verbatim>\<open>poolIDtoLocation\<close>.\<close>

function padTo62 :: "string \<Rightarrow> string" where
  "padTo62 num = (if length num < 62 then padTo62 (CHR ''0'' # num) else num)"
  by pat_completeness auto
termination
  by (relation "measure (\<lambda>num. 62 - length num)") auto

declare padTo62.simps [simp del]

text \<open>
  \<^verbatim>\<open>poolIDtoLocation\<close>: the hex string of the id without its first two characters, padded
  on the left to 62 characters, after \<^verbatim>\<open>0x03\<close>. No statement of it throws.
\<close>

definition poolIDtoLocation :: "int \<Rightarrow> string" where
  "poolIDtoLocation poolID =
     (let num = BN_toHexString poolID;
          num = drop 2 num;
          num = padTo62 num
      in ''0x03'' @ num)"

text \<open>
  \<^verbatim>\<open>getChecksumAddress\<close> of ethers: the address in lower case, each of its 40 characters
  put in upper case when the matching nibble of the Keccak-256 hash of those characters
  is 8 or more. The hash function is a parameter, from the bytes hashed to the bytes of
  the digest. Its own check that the argument is \<^verbatim>\<open>0x\<close> and 40 hex digits never fails
  here: \<^verbatim>\<open>getAddress\<close> calls it after its own test of the same.
\<close>

definition hashNibble :: "nat list \<Rightarrow> nat \<Rightarrow> nat" where
  "hashNibble hashed i =
     (let byte = (if i div 2 < length hashed then hashed ! (i div 2) else 0)
      in if even i then byte div 16 else byte mod 16)"

definition getChecksumAddress :: "(nat list \<Rightarrow> nat list) \<Rightarrow> string \<Rightarrow> string" where
  "getChecksumAddress keccak256 address =
     (let chars = drop 2 (map toLowerCaseChar address);
          hashed = keccak256 (map of_char (take 40 chars))
      in ''0x'' @ map (\<lambda>i. if i < 40 \<and> hashNibble hashed i \<ge> 8
                             then toUpperCaseChar (chars ! i) else chars ! i)
                      [0..<length chars])"

text \<open>
  \<^verbatim>\<open>getAddress\<close> of ethers on a string. \<^verbatim>\<open>/^(0x)?[0-9a-fA-F]{40}$/\<close> decides whether it is
  an address; one that mixes upper and lower case letters
  (\<^verbatim>\<open>/([A-F].*[a-f])|([a-f].*[A-F])/\<close>) must be its own checksummed form. The ICAP form
  starts with \<^verbatim>\<open>XE\<close>; the helper passes strings that start with \<^verbatim>\<open>0x\<close> only, so that
  branch is left out and such a string is an invalid address.
\<close>

definition isAddressString :: "string \<Rightarrow> bool" where
  "isAddressString address =
     ((length address = 40 \<and> list_all isHexDigit address)
      \<or> (take 2 address = ''0x'' \<and> length address = 42 \<and> list_all isHexDigit (drop 2 address)))"

definition mixedCase :: "string \<Rightarrow> bool" where
  "mixedCase address = (list_ex isUpperHexLetter address \<and> list_ex isLowerHexLetter address)"

definition getAddress :: "(nat list \<Rightarrow> nat list) \<Rightarrow> string \<Rightarrow> error + string" where
  "getAddress keccak256 address =
     (if isAddressString address then
        (let address = (if substring address 0 2 \<noteq> ''0x'' then ''0x'' @ address else address);
             result = getChecksumAddress keccak256 address
         in if mixedCase address \<and> result \<noteq> address then Inl BadAddressChecksum
            else Inr result)
      else Inl InvalidAddress)"

definition invalidLocation :: "string \<Rightarrow> string" where
  "invalidLocation loc = ''invalid location '' @ loc"

definition locationToString :: "(nat list \<Rightarrow> nat list) \<Rightarrow> string \<Rightarrow> error + string" where
  "locationToString keccak256 loc =
     (if length loc \<noteq> 66 then Inr (invalidLocation loc)
      else if substring loc 0 4 = ''0x01'' then
        (if substring loc 4 26 \<noteq> ''0000000000000000000000'' then Inr (invalidLocation loc)
         else case getAddress keccak256 (''0x'' @ substring loc 26 66) of
                Inl e \<Rightarrow> Inl e
              | Inr addr \<Rightarrow> Inr (addr @ '' external balance''))
      else if substring loc 0 4 = ''0x02'' then
        (if substring loc 4 26 \<noteq> ''0000000000000000000000'' then Inr (invalidLocation loc)
         else case getAddress keccak256 (''0x'' @ substring loc 26 66) of
                Inl e \<Rightarrow> Inl e
              | Inr addr \<Rightarrow> Inr (addr @ '' internal balance''))
      else if substring loc 0 4 = ''0x03'' then
        (case BN_from_string (''0x'' @ substring loc 4 66) of
           Inl e \<Rightarrow> Inl e
         | Inr poolID \<Rightarrow> Inr (''poolID '' @ BN_toString poolID))
      else Inr (invalidLocation loc))"

subsection \<open>Exchange rate functions\<close>

definition toBytes32 :: "int \<Rightarrow> error + string" where
  "toBytes32 bn =
     (case zeroPad (BN_toHexString bn) 32 of
        Inl e \<Rightarrow> Inl e
      | Inr bytes \<Rightarrow> Inr (hexlify bytes))"

definition encodeExchangeRate :: "int \<Rightarrow> int \<Rightarrow> error + string" where
  "encodeExchangeRate exchangeRateX1 exchangeRateX2 =
     (let x1 = exchangeRateX1; x2 = exchangeRateX2
      in if x1 > MaxUint128 \<or> x2 > MaxUint128 then Inl (CannotEncodeExchangeRate x1 x2)
         else case BN_shl x1 128 of
                Inl e \<Rightarrow> Inl e
              | Inr shifted \<Rightarrow> toBytes32 (shifted + x2))"

definition decodeExchangeRate :: "string \<Rightarrow> error + int \<times> int" where
  "decodeExchangeRate exchangeRate =
     (case BN_from_string exchangeRate of
        Inl e \<Rightarrow> Inl e
      | Inr er \<Rightarrow>
          (case BN_shr er 128 of
             Inl e \<Rightarrow> Inl e
           | Inr x1 \<Rightarrow>
               (case BN_and er MaxUint128 of
                  Inl e \<Rightarrow> Inl e
                | Inr x2 \<Rightarrow> Inr (x1, x2))))"

subsection \<open>General helper functions\<close>

text \<open>The loop \<^verbatim>\<open>for(let i = 0; i < decimals; ++i) s += '0'\<close> of \<^verbatim>\<open>decimalsToAmount\<close>.\<close>

function appendZeros :: "int \<Rightarrow> int \<Rightarrow> string \<Rightarrow> string" where
  "appendZeros i decimals s =
     (if i < decimals then appendZeros (i + 1) decimals (s @ ''0'') else s)"
  by pat_completeness auto
termination
  by (relation "measure (\<lambda>(i, decimals, s). nat (decimals - i))") auto

declare appendZeros.simps [simp del]

definition decimalsToAmount :: "int \<Rightarrow> error + int" where
  "decimalsToAmount decimals =
     (case BN_from_number decimals of
        Inl e \<Rightarrow> Inl e
      | Inr d \<Rightarrow>
          (case BN_toNumber d of
             Inl e \<Rightarrow> Inl e
           | Inr decimals \<Rightarrow> BN_from_string (appendZeros 0 decimals ''1'')))"

record relative_amounts =
  amountAperB :: int
  amountBperA :: int

definition calculateRelativeAmounts :: "int \<Rightarrow> int \<Rightarrow> int \<Rightarrow> int \<Rightarrow> error + relative_amounts" where
  "calculateRelativeAmounts amountA decimalsA amountB decimalsB =
     (case decimalsToAmount decimalsB of
        Inl e \<Rightarrow> Inl e
      | Inr unitB \<Rightarrow>
          (case BN_div (amountA * unitB) amountB of
             Inl e \<Rightarrow> Inl e
           | Inr aPerB \<Rightarrow>
               (case decimalsToAmount decimalsA of
                  Inl e \<Rightarrow> Inl e
                | Inr unitA \<Rightarrow>
                    (case BN_div (amountB * unitA) amountA of
                       Inl e \<Rightarrow> Inl e
                     | Inr bPerA \<Rightarrow> Inr \<lparr>amountAperB = aPerB, amountBperA = bPerA\<rparr>))))"

subsection \<open>Swap calculators\<close>

definition calculateAmountA :: "int \<Rightarrow> string \<Rightarrow> error + int" where
  "calculateAmountA amountB exchangeRate =
     (case decodeExchangeRate exchangeRate of
        Inl e \<Rightarrow> Inl e
      | Inr (x1, x2) \<Rightarrow>
          if x1 \<le> 0 \<or> x2 \<le> 0 then Inl PoolCannotExchange
          else BN_div (amountB * x1) x2)"

definition calculateAmountB :: "int \<Rightarrow> string \<Rightarrow> error + int" where
  "calculateAmountB amountA exchangeRate =
     (case decodeExchangeRate exchangeRate of
        Inl e \<Rightarrow> Inl e
      | Inr (x1, x2) \<Rightarrow>
          if x1 \<le> 0 \<or> x2 \<le> 0 then Inl PoolCannotExchange
          else
            (let numerator = amountA * x2
             in case BN_div numerator x1 of
                  Inl e \<Rightarrow> Inl e
                | Inr amountB \<Rightarrow>
                    (case BN_mod numerator x1 of
                       Inl e \<Rightarrow> Inl e
                     | Inr r \<Rightarrow> Inr (if r > 0 then amountB + 1 else amountB))))"

text \<open>
  The two market orders return objects with different fields; the fields of the first
  are prefixed \<open>amt_\<close>, those of the second \<open>bmt_\<close>.
\<close>

record market_order_exact_amt =
  amt_amountAMM :: int
  amt_amountBMM :: int
  amt_amountBMT :: int
  amt_amountBFR :: int

record market_order_exact_bmt =
  bmt_amountAMM :: int
  bmt_amountAMT :: int
  bmt_amountBMM :: int
  bmt_amountBFR :: int

definition calculateMarketOrderExactAMT ::
  "int \<Rightarrow> string \<Rightarrow> int \<Rightarrow> error + market_order_exact_amt" where
  "calculateMarketOrderExactAMT amountAMT exchangeRate feePPM =
     (let amountAMM = amountAMT
      in case calculateAmountB amountAMM exchangeRate of
           Inl e \<Rightarrow> Inl e
         | Inr amountBMM \<Rightarrow>
             (case BN_div (amountBMM * MAX_PPM) (MAX_PPM - feePPM) of
                Inl e \<Rightarrow> Inl e
              | Inr amountBMT \<Rightarrow>
                  (case BN_div (amountBMT * feePPM) MAX_PPM of
                     Inl e \<Rightarrow> Inl e
                   | Inr amountBFR \<Rightarrow>
                       Inr \<lparr>amt_amountAMM = amountAMM, amt_amountBMM = amountBMM,
                            amt_amountBMT = amountBMT, amt_amountBFR = amountBFR\<rparr>)))"

definition calculateMarketOrderExactBMT ::
  "int \<Rightarrow> string \<Rightarrow> int \<Rightarrow> error + market_order_exact_bmt" where
  "calculateMarketOrderExactBMT amountBMT exchangeRate feePPM =
     (case BN_div (amountBMT * feePPM) MAX_PPM of
        Inl e \<Rightarrow> Inl e
      | Inr amountBFR \<Rightarrow>
          (let amountBMM = amountBMT - amountBFR
           in case calculateAmountA amountBMM exchangeRate of
                Inl e \<Rightarrow> Inl e
              | Inr amountAMM \<Rightarrow>
                  (let amountAMT = amountAMM
                   in Inr \<lparr>bmt_amountAMM = amountAMM, bmt_amountAMT = amountAMT,
                           bmt_amountBMM = amountBMM, bmt_amountBFR = amountBFR\<rparr>)))"

subsection \<open>Swap fees\<close>

text \<open>
  \<^verbatim>\<open>nucleusState.swapFees\<close> is an object of objects, keyed by token address, of entries
  with a field \<^verbatim>\<open>feePPM\<close>: a map of maps. An entry stores the value \<^verbatim>\<open>BN.from\<close> converts
  its field to. Each \<^verbatim>\<open>try\<close> block reads one entry; a missing key makes the read throw,
  the \<^verbatim>\<open>catch\<close> swallows it and \<^verbatim>\<open>feePPM\<close> keeps the value it had. An entry whose
  field \<^verbatim>\<open>BN.from\<close> refuses throws in the same block, and is a missing entry here.
\<close>

record swap_fee_entry =
  entry_feePPM :: int

type_synonym swap_fees = "string \<rightharpoonup> (string \<rightharpoonup> swap_fee_entry)"

record nucleus_state =
  swapFees :: swap_fees

definition readFee :: "swap_fees \<Rightarrow> string \<Rightarrow> string \<Rightarrow> int option" where
  "readFee fees tokenA tokenB =
     (case fees tokenA of
        None \<Rightarrow> None
      | Some row \<Rightarrow> (case row tokenB of None \<Rightarrow> None | Some entry \<Rightarrow> Some (entry_feePPM entry)))"

definition getSwapFeeForPair :: "nucleus_state \<Rightarrow> string \<Rightarrow> string \<Rightarrow> int" where
  "getSwapFeeForPair nucleusState tokenA tokenB =
     (let feePPM = 0;
          fees = swapFees nucleusState;
          feePPM = (if feePPM = 0
                    then (case readFee fees tokenA tokenB of Some v \<Rightarrow> v | None \<Rightarrow> feePPM)
                    else feePPM);
          feePPM = (if feePPM = 0
                    then (case readFee fees AddressZero AddressZero of Some v \<Rightarrow> v | None \<Rightarrow> feePPM)
                    else feePPM);
          feePPM = (if feePPM \<ge> MAX_PPM then 0 else feePPM)
      in feePPM)"

section \<open>Digit strings\<close>

lemma lt16_cases:
  "d < 16 \<Longrightarrow> d \<in> {0,1,2,3,4,5,6,7,8,9,10,11,12,13,14,15::nat}"
  unfolding insert_iff empty_iff by presburger

lemma hexDigitValue_digitChar: "d < 16 \<Longrightarrow> hexDigitValue (digitChar d) = Some d"
proof -
  assume "d < 16"
  then have "d \<in> {0,1,2,3,4,5,6,7,8,9,10,11,12,13,14,15::nat}"
    by (rule lt16_cases)
  then show ?thesis
    unfolding hexDigitValue_def digitChar_def
    by (elim insertE emptyE) simp_all
qed

lemma decDigitValue_digitChar: "d < 10 \<Longrightarrow> decDigitValue (digitChar d) = Some d"
proof -
  assume "d < 10"
  then have "d \<in> {0,1,2,3,4,5,6,7,8,9::nat}"
    unfolding insert_iff empty_iff by presburger
  then show ?thesis
    unfolding decDigitValue_def digitChar_def
    by (elim insertE emptyE) simp_all
qed

lemma parseDigits_append:
  "parseDigits b v acc (xs @ ys) =
     (case parseDigits b v acc xs of None \<Rightarrow> None | Some a \<Rightarrow> parseDigits b v a ys)"
  by (induction xs arbitrary: acc) (auto split: option.splits)

lemma parse_hex_digitsOfNat: "parseDigits 16 hexDigitValue 0 (digitsOfNat 16 n) = Some n"
proof (induction n rule: less_induct)
  case (less n)
  show ?case
  proof (cases "n < 16")
    case True
    then show ?thesis
      by (simp add: digitsOfNat.simps [of 16 n] hexDigitValue_digitChar)
  next
    case False
    then have "parseDigits 16 hexDigitValue 0 (digitsOfNat 16 (n div 16)) = Some (n div 16)"
      using less [of "n div 16"] by simp
    then show ?thesis using False
      by (simp add: digitsOfNat.simps [of 16 n] parseDigits_append hexDigitValue_digitChar)
  qed
qed

lemma parse_dec_digitsOfNat: "parseDigits 10 decDigitValue 0 (digitsOfNat 10 n) = Some n"
proof (induction n rule: less_induct)
  case (less n)
  show ?case
  proof (cases "n < 10")
    case True
    then show ?thesis
      by (simp add: digitsOfNat.simps [of 10 n] decDigitValue_digitChar)
  next
    case False
    then have "parseDigits 10 decDigitValue 0 (digitsOfNat 10 (n div 10)) = Some (n div 10)"
      using less [of "n div 10"] by simp
    then show ?thesis using False
      by (simp add: digitsOfNat.simps [of 10 n] parseDigits_append decDigitValue_digitChar)
  qed
qed

lemma isHexDigit_digitChar: "d < 16 \<Longrightarrow> isHexDigit (digitChar d)"
  by (simp add: isHexDigit_def hexDigitValue_digitChar)

lemma all_hex_digitsOfNat: "list_all isHexDigit (digitsOfNat 16 n)"
proof (induction n rule: less_induct)
  case (less n)
  show ?case
  proof (cases "n < 16")
    case True
    then show ?thesis
      by (simp add: digitsOfNat.simps [of 16 n] isHexDigit_digitChar)
  next
    case False
    then have "list_all isHexDigit (digitsOfNat 16 (n div 16))"
      using less [of "n div 16"] by simp
    then show ?thesis using False
      by (simp add: digitsOfNat.simps [of 16 n] isHexDigit_digitChar)
  qed
qed

lemma length_digitsOfNat_16: "0 < k \<Longrightarrow> n < 16 ^ k \<Longrightarrow> length (digitsOfNat 16 n) \<le> k"
proof (induction n arbitrary: k rule: less_induct)
  case (less n)
  show ?case
  proof (cases "n < 16")
    case True
    then show ?thesis using less.prems
      by (simp add: digitsOfNat.simps [of 16 n])
  next
    case False
    with less.prems obtain j where k: "k = Suc j" and j: "0 < j"
      by (cases k; cases "k - 1") auto
    have "n div 16 < 16 ^ j"
      using less.prems k by (simp add: less_mult_imp_div_less mult.commute)
    then have "length (digitsOfNat 16 (n div 16)) \<le> j"
      using less.IH [of "n div 16" j] False j by simp
    then show ?thesis using False k
      by (simp add: digitsOfNat.simps [of 16 n])
  qed
qed

lemma length_digitsOfNat_16_ge: "16 ^ k \<le> n \<Longrightarrow> k < length (digitsOfNat 16 n)"
proof (induction n arbitrary: k rule: less_induct)
  case (less n)
  show ?case
  proof (cases "n < 16")
    case True
    have "k = 0"
    proof (cases k)
      case 0
      then show ?thesis .
    next
      case (Suc j)
      have "(1::nat) \<le> 16 ^ j" by simp
      then have "(16::nat) \<le> 16 * 16 ^ j" by linarith
      with less.prems Suc True show ?thesis by simp
    qed
    then show ?thesis
      by (simp add: digitsOfNat.simps [of 16 n] True)
  next
    case False
    show ?thesis
    proof (cases k)
      case 0
      then show ?thesis using False by (simp add: digitsOfNat.simps [of 16 n])
    next
      case (Suc j)
      then have "16 ^ j \<le> n div 16"
        using less.prems by (simp add: less_eq_div_iff_mult_less_eq mult.commute)
      then have "j < length (digitsOfNat 16 (n div 16))"
        using less.IH [of "n div 16" j] False by simp
      then show ?thesis using False Suc
        by (simp add: digitsOfNat.simps [of 16 n])
    qed
  qed
qed

section \<open>Division of non-negative values\<close>

lemma BN_div_nonneg: "0 \<le> a \<Longrightarrow> 0 < b \<Longrightarrow> BN_div a b = Inr (a div b)"
  by (simp add: BN_div_def sgn_if)

lemma ceiling_div_mod:
  "0 < (b::int) \<Longrightarrow> \<lceil>real_of_int a / real_of_int b\<rceil> = a div b + (if a mod b \<noteq> 0 then 1 else 0)"
proof -
  assume b: "0 < b"
  have "\<lceil>real_of_int a / real_of_int b\<rceil> = - ((- a) div b)"
    by (simp add: ceiling_divide_eq_div)
  also have "\<dots> = a div b + (if a mod b \<noteq> 0 then 1 else 0)"
    using b by (auto simp: zdiv_zminus1_eq_if)
  finally show ?thesis .
qed

section \<open>Two exchange rates, decoded\<close>

lemma decode_rate_3_1:
  "decodeExchangeRate ''0x0000000000000000000000000000000300000000000000000000000000000001'' = Inr (3, 1)"
  by (simp add: decodeExchangeRate_def BN_from_string_def isHexDigit_def hexDigitValue_def
      BN_shr_def BN_and_def MaxUint128_def)

lemma decode_rate_1_1:
  "decodeExchangeRate ''0x0000000000000000000000000000000100000000000000000000000000000001'' = Inr (1, 1)"
  by (simp add: decodeExchangeRate_def BN_from_string_def isHexDigit_def hexDigitValue_def
      BN_shr_def BN_and_def MaxUint128_def)

section \<open>The market maker's amounts\<close>

lemma calculateAmountB_eq:
  assumes "decodeExchangeRate exchangeRate = Inr (x1, x2)" and "0 < x1" and "0 < x2"
    and "0 \<le> amountA"
  shows "calculateAmountB amountA exchangeRate =
           Inr ((amountA * x2) div x1 + (if (amountA * x2) mod x1 \<noteq> 0 then 1 else 0))"
proof -
  have n: "0 \<le> amountA * x2" using assms by simp
  have m: "(0 < (amountA * x2) mod x1) = ((amountA * x2) mod x1 \<noteq> 0)"
    using pos_mod_sign [OF assms(2), of "amountA * x2"] by auto
  show ?thesis
    using assms
    by (simp add: calculateAmountB_def BN_div_nonneg [OF n] BN_mod_def Let_def m)
qed

lemma calculateAmountA_eq:
  assumes "decodeExchangeRate exchangeRate = Inr (x1, x2)" and "0 < x1" and "0 < x2"
    and "0 \<le> amountB"
  shows "calculateAmountA amountB exchangeRate = Inr ((amountB * x1) div x2)"
  using assms by (simp add: calculateAmountA_def BN_div_nonneg)

text \<open>
  Claim C4. For an exchange rate that decodes to \<open>(x1, x2)\<close> with both positive, and an
  amount of token A (amounts are unsigned: \<open>0 \<le> amountA\<close>), \<open>calculateAmountB\<close> returns
  the ceiling of \<open>amountA * x2 / x1\<close>, which is the floor of the division plus one exactly
  when the remainder is not zero. With the rate \<open>(3, 1)\<close>, the amount 9 gives 3.
\<close>

theorem calculateAmountB_ceiling:
  assumes "decodeExchangeRate exchangeRate = Inr (x1, x2)" and "0 < x1" and "0 < x2"
    and "0 \<le> amountA"
  shows "calculateAmountB amountA exchangeRate
           = Inr \<lceil>real_of_int (amountA * x2) / real_of_int x1\<rceil>
       \<and> calculateAmountB amountA exchangeRate
           = Inr ((amountA * x2) div x1 + (if (amountA * x2) mod x1 \<noteq> 0 then 1 else 0))
       \<and> calculateAmountB 9 ''0x0000000000000000000000000000000300000000000000000000000000000001''
           = Inr 3"
proof -
  have "calculateAmountB 9 ''0x0000000000000000000000000000000300000000000000000000000000000001''
           = Inr 3"
    using calculateAmountB_eq [OF decode_rate_3_1, of 9] by simp
  then show ?thesis
    using calculateAmountB_eq [OF assms] ceiling_div_mod [OF assms(2), of "amountA * x2"]
    by simp
qed

theorem calculateAmountB_ceiling_witness:
  "decodeExchangeRate ''0x0000000000000000000000000000000300000000000000000000000000000001''
     = Inr (3, 1) \<and> (0::int) < 3 \<and> (0::int) < 1 \<and> (0::int) \<le> 10
   \<and> calculateAmountB 10 ''0x0000000000000000000000000000000300000000000000000000000000000001''
       = Inr 4"
  using calculateAmountB_ceiling [OF decode_rate_3_1, of 10] decode_rate_3_1 by simp

text \<open>
  Claim C5. For an exchange rate that decodes to \<open>(x1, x2)\<close> with both positive, and an
  amount of token B (amounts are unsigned: \<open>0 \<le> amountB\<close>), \<open>calculateAmountA\<close> returns
  the floor of \<open>amountB * x1 / x2\<close>. With the rate \<open>(3, 1)\<close>, the amount 10 gives 30,
  and \<open>calculateAmountB\<close> on 10 gives 4, the ceiling of \<open>10 * 1 / 3\<close>.
\<close>

theorem calculateAmountA_floor:
  assumes "decodeExchangeRate exchangeRate = Inr (x1, x2)" and "0 < x1" and "0 < x2"
    and "0 \<le> amountB"
  shows "calculateAmountA amountB exchangeRate
           = Inr \<lfloor>real_of_int (amountB * x1) / real_of_int x2\<rfloor>
       \<and> calculateAmountA 10 ''0x0000000000000000000000000000000300000000000000000000000000000001''
           = Inr 30
       \<and> calculateAmountB 10 ''0x0000000000000000000000000000000300000000000000000000000000000001''
           = Inr 4
       \<and> \<lceil>(10 * 1 / 3 :: real)\<rceil> = 4"
proof -
  have a: "calculateAmountA 10 ''0x0000000000000000000000000000000300000000000000000000000000000001''
           = Inr 30"
    using calculateAmountA_eq [OF decode_rate_3_1, of 10] by simp
  have b: "calculateAmountB 10 ''0x0000000000000000000000000000000300000000000000000000000000000001''
           = Inr 4"
    using calculateAmountB_eq [OF decode_rate_3_1, of 10] by simp
  have c: "\<lceil>(10 * 1 / 3 :: real)\<rceil> = 4"
    using ceiling_div_mod [of 3 10] by simp
  have "calculateAmountA amountB exchangeRate
           = Inr \<lfloor>real_of_int (amountB * x1) / real_of_int x2\<rfloor>"
    using calculateAmountA_eq [OF assms] floor_divide_of_int_eq [of "amountB * x1" x2, where ?'a = real]
    by simp
  with a b c show ?thesis by simp
qed

theorem calculateAmountA_floor_witness:
  "decodeExchangeRate ''0x0000000000000000000000000000000100000000000000000000000000000001''
     = Inr (1, 1) \<and> (0::int) < 1 \<and> (0::int) \<le> 7
   \<and> calculateAmountA 7 ''0x0000000000000000000000000000000100000000000000000000000000000001''
       = Inr 7"
  using calculateAmountA_floor [OF decode_rate_1_1, of 7] decode_rate_1_1 by simp

section \<open>Inactive rates\<close>

lemma decodeExchangeRate_nonneg:
  "decodeExchangeRate exchangeRate = Inr (x1, x2) \<Longrightarrow> 0 \<le> x1 \<and> 0 \<le> x2"
  by (auto simp: decodeExchangeRate_def BN_shr_def BN_and_def MaxUint128_def
      split: sum.splits if_splits)

lemma BN_div_not_inactive: "BN_div a b \<noteq> Inl PoolCannotExchange"
  by (simp add: BN_div_def)

lemma BN_mod_not_inactive: "BN_mod a b \<noteq> Inl PoolCannotExchange"
  by (simp add: BN_mod_def)

lemma BN_from_string_not_inactive: "BN_from_string s \<noteq> Inl PoolCannotExchange"
  by (simp add: BN_from_string_def Let_def split: option.splits)

lemma decodeExchangeRate_not_inactive: "decodeExchangeRate s \<noteq> Inl PoolCannotExchange"
  using BN_from_string_not_inactive [of s]
  by (auto simp: decodeExchangeRate_def BN_shr_def BN_and_def split: sum.splits if_splits)

lemma calculateAmountA_inactive_iff:
  "calculateAmountA amountB exchangeRate = Inl PoolCannotExchange
     \<longleftrightarrow> (\<exists>x1 x2. decodeExchangeRate exchangeRate = Inr (x1, x2) \<and> (x1 = 0 \<or> x2 = 0))"
proof (cases "decodeExchangeRate exchangeRate")
  case (Inl e)
  then show ?thesis
    using decodeExchangeRate_not_inactive [of exchangeRate]
    by (simp add: calculateAmountA_def)
next
  case (Inr p)
  obtain x1 x2 where p: "p = (x1, x2)" by (cases p)
  have "0 \<le> x1 \<and> 0 \<le> x2"
    using decodeExchangeRate_nonneg Inr p by simp
  then show ?thesis
    using Inr p BN_div_not_inactive [of "amountB * x1" x2]
    by (auto simp: calculateAmountA_def)
qed

lemma calculateAmountB_inactive_iff:
  "calculateAmountB amountA exchangeRate = Inl PoolCannotExchange
     \<longleftrightarrow> (\<exists>x1 x2. decodeExchangeRate exchangeRate = Inr (x1, x2) \<and> (x1 = 0 \<or> x2 = 0))"
proof (cases "decodeExchangeRate exchangeRate")
  case (Inl e)
  then show ?thesis
    using decodeExchangeRate_not_inactive [of exchangeRate]
    by (simp add: calculateAmountB_def)
next
  case (Inr p)
  obtain x1 x2 where p: "p = (x1, x2)" by (cases p)
  have "0 \<le> x1 \<and> 0 \<le> x2"
    using decodeExchangeRate_nonneg Inr p by simp
  then show ?thesis
    using Inr p
    by (auto simp: calculateAmountB_def BN_div_def BN_mod_def Let_def)
qed

lemma decode_rate_0_1:
  "decodeExchangeRate ''0x0000000000000000000000000000000000000000000000000000000000000001'' = Inr (0, 1)"
  by (simp add: decodeExchangeRate_def BN_from_string_def isHexDigit_def hexDigitValue_def
      BN_shr_def BN_and_def MaxUint128_def)

text \<open>
  Claim C6. Whatever the amount, \<open>calculateAmountA\<close> and \<open>calculateAmountB\<close> fail with
  the inactive-rate error (\<open>PoolCannotExchange\<close>) exactly when the exchange rate decodes
  to a pair \<open>(x1, x2)\<close> with \<open>x1 = 0\<close> or \<open>x2 = 0\<close>; such a rate never gives an amount.
\<close>

theorem inactive_rate_error:
  "(calculateAmountA amountB exchangeRate = Inl PoolCannotExchange
      \<longleftrightarrow> (\<exists>x1 x2. decodeExchangeRate exchangeRate = Inr (x1, x2) \<and> (x1 = 0 \<or> x2 = 0)))
   \<and> (calculateAmountB amountA exchangeRate = Inl PoolCannotExchange
      \<longleftrightarrow> (\<exists>x1 x2. decodeExchangeRate exchangeRate = Inr (x1, x2) \<and> (x1 = 0 \<or> x2 = 0)))"
  using calculateAmountA_inactive_iff [of amountB exchangeRate]
    calculateAmountB_inactive_iff [of amountA exchangeRate]
  by (rule conjI)

theorem inactive_rate_error_witness:
  "calculateAmountA 5 ''0x0000000000000000000000000000000000000000000000000000000000000001''
     = Inl PoolCannotExchange
   \<and> calculateAmountB 5 ''0x0000000000000000000000000000000000000000000000000000000000000001''
     = Inl PoolCannotExchange"
  using inactive_rate_error
    [of 5 "''0x0000000000000000000000000000000000000000000000000000000000000001''" 5]
    decode_rate_0_1
  by simp

section \<open>The market taker's orders\<close>

lemma fee_le_amount:
  assumes "0 \<le> (a::int)" and "0 \<le> f" and "f \<le> 1000000"
  shows "(a * f) div 1000000 \<le> a" and "0 \<le> (a * f) div 1000000"
proof -
  have "a * f \<le> a * 1000000"
    using assms by (simp add: mult_left_mono)
  then have "(a * f) div 1000000 \<le> (a * 1000000) div 1000000"
    by (rule zdiv_mono1) simp
  then show "(a * f) div 1000000 \<le> a" by simp
  show "0 \<le> (a * f) div 1000000"
    using assms by (simp add: pos_imp_zdiv_nonneg_iff)
qed

lemma calculateMarketOrderExactBMT_eq:
  assumes "decodeExchangeRate exchangeRate = Inr (x1, x2)" and "0 < x1" and "0 < x2"
    and "0 \<le> feePPM" and "feePPM \<le> 1000000" and "0 \<le> amountBMT"
  shows "calculateMarketOrderExactBMT amountBMT exchangeRate feePPM =
           Inr \<lparr>bmt_amountAMM = ((amountBMT - (amountBMT * feePPM) div 1000000) * x1) div x2,
                bmt_amountAMT = ((amountBMT - (amountBMT * feePPM) div 1000000) * x1) div x2,
                bmt_amountBMM = amountBMT - (amountBMT * feePPM) div 1000000,
                bmt_amountBFR = (amountBMT * feePPM) div 1000000\<rparr>"
proof -
  have n: "0 \<le> amountBMT * feePPM" using assms by simp
  have m: "0 \<le> amountBMT - (amountBMT * feePPM) div 1000000"
    using fee_le_amount(1) [OF assms(6) assms(4) assms(5)] by simp
  show ?thesis
    using BN_div_nonneg [OF n, of MAX_PPM] calculateAmountA_eq [OF assms(1-3) m]
    by (simp add: calculateMarketOrderExactBMT_def MAX_PPM_def Let_def)
qed

text \<open>
  Claim C10. For an exchange rate that decodes to \<open>(x1, x2)\<close> with both positive, a fee
  with \<open>0 \<le> feePPM \<le> 1000000\<close> and a payment \<open>0 \<le> amountBMT\<close> (amounts are unsigned),
  \<open>calculateMarketOrderExactBMT\<close> returns, its fee \<open>amountBFR\<close> is at most the payment,
  so that \<open>amountBMM = amountBMT - amountBFR\<close> is not negative, and the returned
  \<open>amountAMT\<close> equals \<open>amountAMM\<close>.
\<close>

theorem exactBMT_fee_within_payment:
  assumes "decodeExchangeRate exchangeRate = Inr (x1, x2)" and "0 < x1" and "0 < x2"
    and "0 \<le> feePPM" and "feePPM \<le> 1000000" and "0 \<le> amountBMT"
  shows "\<exists>r. calculateMarketOrderExactBMT amountBMT exchangeRate feePPM = Inr r
           \<and> bmt_amountBFR r \<le> amountBMT
           \<and> bmt_amountBMM r = amountBMT - bmt_amountBFR r
           \<and> 0 \<le> bmt_amountBMM r
           \<and> bmt_amountAMT r = bmt_amountAMM r"
  using calculateMarketOrderExactBMT_eq [OF assms]
    fee_le_amount(1) [OF assms(6) assms(4) assms(5)]
  by simp

theorem exactBMT_fee_within_payment_witness:
  "decodeExchangeRate ''0x0000000000000000000000000000000100000000000000000000000000000001''
     = Inr (1, 1) \<and> (0::int) < 1 \<and> (0::int) \<le> 10000 \<and> (10000::int) \<le> 1000000
   \<and> (0::int) \<le> 100
   \<and> (\<exists>r. calculateMarketOrderExactBMT 100
              ''0x0000000000000000000000000000000100000000000000000000000000000001'' 10000 = Inr r
          \<and> bmt_amountBFR r \<le> 100
          \<and> bmt_amountBMM r = 100 - bmt_amountBFR r
          \<and> 0 \<le> bmt_amountBMM r
          \<and> bmt_amountAMT r = bmt_amountAMM r)"
  using exactBMT_fee_within_payment [OF decode_rate_1_1, of 10000 100] decode_rate_1_1
  by simp

lemma calculateMarketOrderExactAMT_eq:
  assumes "decodeExchangeRate exchangeRate = Inr (x1, x2)" and "0 < x1" and "0 < x2"
    and "0 \<le> feePPM" and "feePPM < 1000000" and "0 \<le> amountAMT"
    and "bmm = (amountAMT * x2) div x1 + (if (amountAMT * x2) mod x1 \<noteq> 0 then 1 else 0)"
    and "bmt = (bmm * 1000000) div (1000000 - feePPM)"
    and "bfr = (bmt * feePPM) div 1000000"
  shows "calculateMarketOrderExactAMT amountAMT exchangeRate feePPM =
           Inr \<lparr>amt_amountAMM = amountAMT, amt_amountBMM = bmm,
                amt_amountBMT = bmt, amt_amountBFR = bfr\<rparr>"
proof -
  have "0 \<le> (amountAMT * x2) div x1"
    using assms(2,3,6) by (simp add: pos_imp_zdiv_nonneg_iff)
  then have bmm: "0 \<le> bmm" using assms(7) by simp
  then have n1: "0 \<le> bmm * 1000000" by simp
  have d: "0 < 1000000 - feePPM" using assms(5) by simp
  have bmt: "0 \<le> bmt"
    using n1 d assms(8) by (simp add: pos_imp_zdiv_nonneg_iff)
  then have n2: "0 \<le> bmt * feePPM" using assms(4) by simp
  show ?thesis
    using calculateAmountB_eq [OF assms(1-3) assms(6)]
      BN_div_nonneg [OF n1 d] BN_div_nonneg [OF n2, of 1000000] assms(7-9)
    by (simp add: calculateMarketOrderExactAMT_def MAX_PPM_def Let_def)
qed

text \<open>
  Claim C1, as stated, asks for \<open>amountBMT = ceil(amountBMM * 1000000 / (1000000 - feePPM))\<close>
  and for 102 in its example. The helper divides with \<^verbatim>\<open>div\<close>, which rounds down: on the
  example (rate \<open>(1, 1)\<close>, fee 10000, amount 100) it returns \<open>amountBMT = 101\<close>, while the
  ceiling is 102.
\<close>

theorem exactAMT_counterexample:
  "calculateMarketOrderExactAMT 100
     ''0x0000000000000000000000000000000100000000000000000000000000000001'' 10000
     = Inr \<lparr>amt_amountAMM = 100, amt_amountBMM = 100, amt_amountBMT = 101, amt_amountBFR = 1\<rparr>
   \<and> \<lceil>real_of_int (100 * 1000000) / real_of_int (1000000 - 10000)\<rceil> = (102::int)"
proof -
  have "calculateMarketOrderExactAMT 100
     ''0x0000000000000000000000000000000100000000000000000000000000000001'' 10000
     = Inr \<lparr>amt_amountAMM = 100, amt_amountBMM = 100, amt_amountBMT = 101, amt_amountBFR = 1\<rparr>"
    by (rule calculateMarketOrderExactAMT_eq [OF decode_rate_1_1]) simp_all
  moreover have "\<lceil>real_of_int (100 * 1000000) / real_of_int (1000000 - 10000)\<rceil> = (102::int)"
    using ceiling_div_mod [of "1000000 - 10000" "100 * 1000000"] by simp
  ultimately show ?thesis by (rule conjI)
qed

text \<open>
  Claim C1, amended. For an exchange rate that decodes to \<open>(x1, x2)\<close> with both positive,
  a fee with \<open>0 \<le> feePPM < 1000000\<close> and an amount \<open>0 \<le> amountAMT\<close> (amounts are
  unsigned), \<open>calculateMarketOrderExactAMT\<close> returns \<open>amountAMM = amountAMT\<close>,
  \<open>amountBMM = ceil(amountAMT * x2 / x1)\<close>,
  \<open>amountBMT = floor(amountBMM * 1000000 / (1000000 - feePPM))\<close> and
  \<open>amountBFR = floor(amountBMT * feePPM / 1000000)\<close>. With the rate \<open>(1, 1)\<close> and the fee
  10000, the amount 100 gives \<open>amountBMM = 100\<close>, \<open>amountBMT = 101\<close> and \<open>amountBFR = 1\<close>.
\<close>

theorem exactAMT_amounts:
  assumes "decodeExchangeRate exchangeRate = Inr (x1, x2)" and "0 < x1" and "0 < x2"
    and "0 \<le> feePPM" and "feePPM < 1000000" and "0 \<le> amountAMT"
  shows "(\<exists>bmm bmt bfr.
            calculateMarketOrderExactAMT amountAMT exchangeRate feePPM
              = Inr \<lparr>amt_amountAMM = amountAMT, amt_amountBMM = bmm,
                      amt_amountBMT = bmt, amt_amountBFR = bfr\<rparr>
          \<and> bmm = \<lceil>real_of_int (amountAMT * x2) / real_of_int x1\<rceil>
          \<and> bmt = \<lfloor>real_of_int (bmm * 1000000) / real_of_int (1000000 - feePPM)\<rfloor>
          \<and> bfr = \<lfloor>real_of_int (bmt * feePPM) / real_of_int 1000000\<rfloor>)
       \<and> calculateMarketOrderExactAMT 100
            ''0x0000000000000000000000000000000100000000000000000000000000000001'' 10000
            = Inr \<lparr>amt_amountAMM = 100, amt_amountBMM = 100,
                    amt_amountBMT = 101, amt_amountBFR = 1\<rparr>"
proof -
  define bmm where "bmm = (amountAMT * x2) div x1 + (if (amountAMT * x2) mod x1 \<noteq> 0 then 1 else 0)"
  define bmt where "bmt = (bmm * 1000000) div (1000000 - feePPM)"
  define bfr where "bfr = (bmt * feePPM) div 1000000"
  have r: "calculateMarketOrderExactAMT amountAMT exchangeRate feePPM
              = Inr \<lparr>amt_amountAMM = amountAMT, amt_amountBMM = bmm,
                      amt_amountBMT = bmt, amt_amountBFR = bfr\<rparr>"
    by (rule calculateMarketOrderExactAMT_eq [OF assms bmm_def bmt_def bfr_def])
  have 1: "bmm = \<lceil>real_of_int (amountAMT * x2) / real_of_int x1\<rceil>"
    unfolding bmm_def using ceiling_div_mod [OF assms(2), of "amountAMT * x2"] by simp
  have 2: "bmt = \<lfloor>real_of_int (bmm * 1000000) / real_of_int (1000000 - feePPM)\<rfloor>"
    unfolding bmt_def by (simp only: floor_divide_of_int_eq)
  have 3: "bfr = \<lfloor>real_of_int (bmt * feePPM) / real_of_int 1000000\<rfloor>"
    unfolding bfr_def by (simp only: floor_divide_of_int_eq)
  have e: "calculateMarketOrderExactAMT 100
            ''0x0000000000000000000000000000000100000000000000000000000000000001'' 10000
            = Inr \<lparr>amt_amountAMM = 100, amt_amountBMM = 100,
                    amt_amountBMT = 101, amt_amountBFR = 1\<rparr>"
    by (rule calculateMarketOrderExactAMT_eq [OF decode_rate_1_1]) simp_all
  from r 1 2 3 e show ?thesis by blast
qed

theorem exactAMT_amounts_witness:
  "decodeExchangeRate ''0x0000000000000000000000000000000300000000000000000000000000000001''
     = Inr (3, 1) \<and> (0::int) < 3 \<and> (0::int) < 1 \<and> (0::int) \<le> 500000 \<and> (500000::int) < 1000000
   \<and> (0::int) \<le> 10
   \<and> calculateMarketOrderExactAMT 10
        ''0x0000000000000000000000000000000300000000000000000000000000000001'' 500000
        = Inr \<lparr>amt_amountAMM = 10, amt_amountBMM = 4, amt_amountBMT = 8, amt_amountBFR = 4\<rparr>"
proof -
  have c: "\<lceil>(10 / 3 :: real)\<rceil> = 4"
    using ceiling_div_mod [of 3 10] by simp
  have f1: "\<lfloor>(4000000 / 500000 :: real)\<rfloor> = 8"
    using floor_divide_of_int_eq [of 4000000 500000, where ?'a = real] by simp
  have f2: "\<lfloor>(4000000 / 1000000 :: real)\<rfloor> = 4"
    using floor_divide_of_int_eq [of 4000000 1000000, where ?'a = real] by simp
  show ?thesis
    using exactAMT_amounts [OF decode_rate_3_1, of 500000 10] decode_rate_3_1 c f1 f2
    by auto
qed

section \<open>Fee resolution\<close>

lemma readFee_Some_iff:
  "readFee fees tokenA tokenB = Some v
     \<longleftrightarrow> (\<exists>row entry. fees tokenA = Some row \<and> row tokenB = Some entry \<and> entry_feePPM entry = v)"
  by (auto simp: readFee_def split: option.splits)

lemma getSwapFeeForPair_eq:
  "getSwapFeeForPair nucleusState tokenA tokenB =
     (let resolved =
        (case readFee (swapFees nucleusState) tokenA tokenB of
           Some v \<Rightarrow> if v \<noteq> 0 then v
                     else (case readFee (swapFees nucleusState) AddressZero AddressZero of
                             Some d \<Rightarrow> d | None \<Rightarrow> 0)
         | None \<Rightarrow> (case readFee (swapFees nucleusState) AddressZero AddressZero of
                      Some d \<Rightarrow> d | None \<Rightarrow> 0))
      in if resolved \<ge> 1000000 then 0 else resolved)"
  by (simp add: getSwapFeeForPair_def MAX_PPM_def Let_def split: option.splits)

text \<open>
  Claim C2, as stated, has the pair's own entry returned whenever it is present, whatever
  its value. The second lookup of the helper is guarded by \<^verbatim>\<open>feePPM.eq(Zero)\<close>, so a
  pair's entry that is present with the value 0 gives way to the default: with the
  pair's entry 0 and the default 500 the helper returns 500.
\<close>

theorem getSwapFeeForPair_counterexample:
  "readFee (swapFees \<lparr>swapFees = Map.empty
        (''0x1111111111111111111111111111111111111111'' \<mapsto>
           Map.empty (''0x2222222222222222222222222222222222222222'' \<mapsto> \<lparr>entry_feePPM = 0\<rparr>),
         ''0x0000000000000000000000000000000000000000'' \<mapsto>
           Map.empty (''0x0000000000000000000000000000000000000000'' \<mapsto> \<lparr>entry_feePPM = 500\<rparr>))\<rparr>)
      ''0x1111111111111111111111111111111111111111''
      ''0x2222222222222222222222222222222222222222'' = Some 0
   \<and> getSwapFeeForPair \<lparr>swapFees = Map.empty
        (''0x1111111111111111111111111111111111111111'' \<mapsto>
           Map.empty (''0x2222222222222222222222222222222222222222'' \<mapsto> \<lparr>entry_feePPM = 0\<rparr>),
         ''0x0000000000000000000000000000000000000000'' \<mapsto>
           Map.empty (''0x0000000000000000000000000000000000000000'' \<mapsto> \<lparr>entry_feePPM = 500\<rparr>))\<rparr>
      ''0x1111111111111111111111111111111111111111''
      ''0x2222222222222222222222222222222222222222'' = 500"
  by (simp add: getSwapFeeForPair_eq readFee_def AddressZero_def)

text \<open>
  Claim C2, amended. \<open>getSwapFeeForPair\<close> resolves the pair's own entry
  \<open>swapFees[tokenA][tokenB]\<close> when it is present and not zero; the default
  \<open>swapFees[ZERO][ZERO]\<close> when the pair's entry is absent or zero; 0 when the pair's
  entry is absent or zero and the default is absent; and it returns 0 in place of a
  resolved value of 1000000 or more. An entry is present when both keys are.
\<close>

theorem getSwapFeeForPair_resolution:
  "(\<forall>v. readFee (swapFees nucleusState) tokenA tokenB = Some v \<and> v \<noteq> 0
        \<longrightarrow> getSwapFeeForPair nucleusState tokenA tokenB = (if v \<ge> 1000000 then 0 else v))
   \<and> (\<forall>d. (readFee (swapFees nucleusState) tokenA tokenB = None
             \<or> readFee (swapFees nucleusState) tokenA tokenB = Some 0)
          \<and> readFee (swapFees nucleusState) AddressZero AddressZero = Some d
        \<longrightarrow> getSwapFeeForPair nucleusState tokenA tokenB = (if d \<ge> 1000000 then 0 else d))
   \<and> ((readFee (swapFees nucleusState) tokenA tokenB = None
             \<or> readFee (swapFees nucleusState) tokenA tokenB = Some 0)
          \<and> readFee (swapFees nucleusState) AddressZero AddressZero = None
        \<longrightarrow> getSwapFeeForPair nucleusState tokenA tokenB = 0)
   \<and> (\<forall>v. readFee (swapFees nucleusState) tokenA tokenB = Some v
        \<longleftrightarrow> (\<exists>row entry. swapFees nucleusState tokenA = Some row \<and> row tokenB = Some entry
               \<and> entry_feePPM entry = v))"
proof (intro conjI)
  show "\<forall>v. readFee (swapFees nucleusState) tokenA tokenB = Some v \<and> v \<noteq> 0
        \<longrightarrow> getSwapFeeForPair nucleusState tokenA tokenB = (if v \<ge> 1000000 then 0 else v)"
    by (simp add: getSwapFeeForPair_eq)
  show "\<forall>d. (readFee (swapFees nucleusState) tokenA tokenB = None
             \<or> readFee (swapFees nucleusState) tokenA tokenB = Some 0)
          \<and> readFee (swapFees nucleusState) AddressZero AddressZero = Some d
        \<longrightarrow> getSwapFeeForPair nucleusState tokenA tokenB = (if d \<ge> 1000000 then 0 else d)"
    by (auto simp: getSwapFeeForPair_eq)
  show "(readFee (swapFees nucleusState) tokenA tokenB = None
             \<or> readFee (swapFees nucleusState) tokenA tokenB = Some 0)
          \<and> readFee (swapFees nucleusState) AddressZero AddressZero = None
        \<longrightarrow> getSwapFeeForPair nucleusState tokenA tokenB = 0"
    by (auto simp: getSwapFeeForPair_eq)
  show "\<forall>v. readFee (swapFees nucleusState) tokenA tokenB = Some v
        \<longleftrightarrow> (\<exists>row entry. swapFees nucleusState tokenA = Some row \<and> row tokenB = Some entry
               \<and> entry_feePPM entry = v)"
    by (rule allI) (rule readFee_Some_iff)
qed

theorem getSwapFeeForPair_resolution_witness:
  "getSwapFeeForPair \<lparr>swapFees = Map.empty
        (''0x1111111111111111111111111111111111111111'' \<mapsto>
           Map.empty (''0x2222222222222222222222222222222222222222'' \<mapsto> \<lparr>entry_feePPM = 3000\<rparr>),
         ''0x0000000000000000000000000000000000000000'' \<mapsto>
           Map.empty (''0x0000000000000000000000000000000000000000'' \<mapsto> \<lparr>entry_feePPM = 500\<rparr>))\<rparr>
      ''0x1111111111111111111111111111111111111111''
      ''0x2222222222222222222222222222222222222222'' = 3000
   \<and> getSwapFeeForPair \<lparr>swapFees = Map.empty
        (''0x0000000000000000000000000000000000000000'' \<mapsto>
           Map.empty (''0x0000000000000000000000000000000000000000'' \<mapsto> \<lparr>entry_feePPM = 500\<rparr>))\<rparr>
      ''0x1111111111111111111111111111111111111111''
      ''0x2222222222222222222222222222222222222222'' = 500
   \<and> getSwapFeeForPair \<lparr>swapFees = Map.empty\<rparr>
      ''0x1111111111111111111111111111111111111111''
      ''0x2222222222222222222222222222222222222222'' = 0
   \<and> getSwapFeeForPair \<lparr>swapFees = Map.empty
        (''0x1111111111111111111111111111111111111111'' \<mapsto>
           Map.empty (''0x2222222222222222222222222222222222222222'' \<mapsto> \<lparr>entry_feePPM = 1000000\<rparr>),
         ''0x0000000000000000000000000000000000000000'' \<mapsto>
           Map.empty (''0x0000000000000000000000000000000000000000'' \<mapsto> \<lparr>entry_feePPM = 500\<rparr>))\<rparr>
      ''0x1111111111111111111111111111111111111111''
      ''0x2222222222222222222222222222222222222222'' = 0"
proof -
  let ?a = "''0x1111111111111111111111111111111111111111''"
  let ?b = "''0x2222222222222222222222222222222222222222''"
  let ?z = "''0x0000000000000000000000000000000000000000''"
  let ?d = "Map.empty (?z \<mapsto> \<lparr>entry_feePPM = 500\<rparr>)"
  let ?s1 = "\<lparr>swapFees = Map.empty (?a \<mapsto> Map.empty (?b \<mapsto> \<lparr>entry_feePPM = 3000\<rparr>), ?z \<mapsto> ?d)\<rparr>"
  let ?s2 = "\<lparr>swapFees = Map.empty (?z \<mapsto> ?d)\<rparr>"
  let ?s3 = "\<lparr>swapFees = (Map.empty :: swap_fees)\<rparr>"
  let ?s4 = "\<lparr>swapFees = Map.empty (?a \<mapsto> Map.empty (?b \<mapsto> \<lparr>entry_feePPM = 1000000\<rparr>), ?z \<mapsto> ?d)\<rparr>"
  have 1: "getSwapFeeForPair ?s1 ?a ?b = 3000"
    using getSwapFeeForPair_resolution [of ?s1 ?a ?b]
    by (simp add: readFee_def AddressZero_def)
  have 2: "getSwapFeeForPair ?s2 ?a ?b = 500"
    using getSwapFeeForPair_resolution [of ?s2 ?a ?b]
    by (simp add: readFee_def AddressZero_def)
  have 3: "getSwapFeeForPair ?s3 ?a ?b = 0"
    using getSwapFeeForPair_resolution [of ?s3 ?a ?b]
    by (simp add: readFee_def AddressZero_def)
  have 4: "getSwapFeeForPair ?s4 ?a ?b = 0"
    using getSwapFeeForPair_resolution [of ?s4 ?a ?b]
    by (simp add: readFee_def AddressZero_def)
  from 1 2 3 4 show ?thesis by simp
qed

section \<open>Hex strings of 32 bytes\<close>

lemma digitsOfNat_chars: "set (digitsOfNat 16 n) \<subseteq> digitChar ` {..<16}"
proof (induction n rule: less_induct)
  case (less n)
  show ?case
  proof (cases "n < 16")
    case True
    then show ?thesis
      by (simp add: digitsOfNat.simps [of 16 n])
  next
    case False
    then have "set (digitsOfNat 16 (n div 16)) \<subseteq> digitChar ` {..<16}"
      using less [of "n div 16"] by simp
    then show ?thesis using False
      by (simp add: digitsOfNat.simps [of 16 n])
  qed
qed

lemma digitsOfNat_nonempty: "digitsOfNat b n \<noteq> []"
  by (subst digitsOfNat.simps) simp

lemma digitChar_0: "digitChar 0 = CHR ''0''"
  by (simp add: digitChar_def)

lemma evenHex_chars: "set (evenHex n) \<subseteq> digitChar ` {..<16}"
proof -
  have "CHR ''0'' \<in> digitChar ` {..<16}"
    using digitChar_0 by (metis imageI lessThan_iff zero_less_numeral)
  then show ?thesis
    using digitsOfNat_chars [of n] by (simp add: evenHex_def Let_def)
qed

lemma evenHex_even: "even (length (evenHex n))"
  by (simp add: evenHex_def Let_def)

lemma evenHex_nonempty: "evenHex n \<noteq> []"
  by (simp add: evenHex_def Let_def digitsOfNat_nonempty)

lemma evenHex_length_le:
  assumes "0 < k" and "even k" and "n < 16 ^ k"
  shows "length (evenHex n) \<le> k"
proof -
  have l: "length (digitsOfNat 16 n) \<le> k"
    using assms(1,3) by (rule length_digitsOfNat_16)
  show ?thesis
  proof (cases "odd (length (digitsOfNat 16 n))")
    case True
    then have "length (digitsOfNat 16 n) \<noteq> k" using assms(2) by auto
    with l True show ?thesis by (simp add: evenHex_def Let_def)
  next
    case False
    with l show ?thesis by (simp add: evenHex_def Let_def)
  qed
qed

lemma evenHex_length: "n < 2 ^ 256 \<Longrightarrow> length (evenHex n) \<le> 64"
  using evenHex_length_le [of 64 n] by simp

lemma chars_all_hex: "set s \<subseteq> digitChar ` {..<16} \<Longrightarrow> list_all isHexDigit s"
  by (auto simp: list_all_iff isHexDigit_digitChar)

lemma hex_of_bytesOfHex:
  "even (length s) \<Longrightarrow> set s \<subseteq> digitChar ` {..<16} \<Longrightarrow>
     concat (map (\<lambda>b. [digitChar (b div 16), digitChar (b mod 16)]) (bytesOfHex s)) = s"
proof (induction s rule: bytesOfHex.induct)
  case (1 a b cs)
  from "1.prems"(2) obtain h l where h: "h < 16" "a = digitChar h" and l: "l < 16" "b = digitChar l"
    by auto
  have "even (length cs)" and "set cs \<subseteq> digitChar ` {..<16}"
    using "1.prems" by simp_all
  then have "concat (map (\<lambda>b. [digitChar (b div 16), digitChar (b mod 16)]) (bytesOfHex cs)) = cs"
    by (rule "1.IH")
  then show ?case
    using h l by (simp add: hexDigitValue_digitChar)
qed simp_all

lemma length_bytesOfHex: "length (bytesOfHex s) = length s div 2"
  by (induction s rule: bytesOfHex.induct) simp_all

lemma hex_of_zero_bytes:
  "concat (replicate k [digitChar 0, digitChar 0]) = replicate (2 * k) CHR ''0''"
  by (induction k) (simp_all add: digitChar_0)

lemma toBytes32_eq:
  assumes "0 \<le> a" and "a < 2 ^ 256"
  shows "toBytes32 a =
           Inr (''0x'' @ replicate (64 - length (evenHex (nat a))) CHR ''0'' @ evenHex (nat a))"
proof -
  let ?h = "evenHex (nat a)"
  have n: "nat a < 2 ^ 256" using assms by (simp add: nat_less_iff)
  have len: "length ?h \<le> 64" by (rule evenHex_length [OF n])
  have ev: "even (length ?h)" by (rule evenHex_even)
  have arr: "arrayify (BN_toHexString a) = Inr (bytesOfHex ?h)"
    using assms(1) ev chars_all_hex [OF evenHex_chars, of "nat a"]
    by (simp add: arrayify_def BN_toHexString_def)
  have bl: "length (bytesOfHex ?h) \<le> 32"
    using len by (simp add: length_bytesOfHex)
  have k: "2 * (32 - length ?h div 2) = 64 - length ?h"
    using ev len by (auto elim!: evenE)
  show ?thesis
    using arr bl k hex_of_bytesOfHex [OF ev evenHex_chars]
    by (simp add: toBytes32_def zeroPad_def hexlify_def hex_of_zero_bytes length_bytesOfHex)
qed

lemma parse_hex_leading_zeros:
  "parseDigits 16 hexDigitValue 0 (replicate k CHR ''0'' @ s) = parseDigits 16 hexDigitValue 0 s"
  by (induction k) (simp_all add: hexDigitValue_def)

lemma parse_evenHex: "parseDigits 16 hexDigitValue 0 (evenHex n) = Some n"
  using parse_hex_leading_zeros [of 1 "digitsOfNat 16 n"]
  by (simp add: evenHex_def Let_def parse_hex_digitsOfNat)

lemma BN_from_string_padded_hex:
  "BN_from_string (''0x'' @ replicate k CHR ''0'' @ evenHex n) = Inr (int n)"
proof -
  have z: "list_all isHexDigit (replicate k CHR ''0'')"
    by (simp add: list_all_iff isHexDigit_def hexDigitValue_def)
  have h: "list_all isHexDigit (evenHex n)"
    by (rule chars_all_hex [OF evenHex_chars])
  show ?thesis
    using z h evenHex_nonempty [of n]
    by (simp add: BN_from_string_def parse_hex_leading_zeros parse_evenHex)
qed

lemma split_rate:
  assumes "0 \<le> x1" and "0 \<le> x2" and "x2 \<le> 2 ^ 128 - 1"
  shows "drop_bit 128 (push_bit 128 x1 + x2) = (x1::int)"
    and "(push_bit 128 x1 + x2) AND (2 ^ 128 - 1) = x2"
proof -
  have x2: "x2 < 2 ^ 128" using assms(3) by simp
  show "drop_bit 128 (push_bit 128 x1 + x2) = x1"
    using assms(2) x2 by (simp add: drop_bit_eq_div push_bit_eq_mult)
  have "(push_bit 128 x1 + x2) AND mask 128 = (push_bit 128 x1 + x2) mod 2 ^ 128"
    by (simp add: take_bit_eq_mod flip: take_bit_eq_mask)
  also have "\<dots> = x2"
    using assms(2) x2 by (simp add: push_bit_eq_mult)
  finally show "(push_bit 128 x1 + x2) AND (2 ^ 128 - 1) = x2"
    by (simp add: mask_eq_exp_minus_1)
qed

text \<open>
  Claim C8. For unsigned \<open>x1\<close> and \<open>x2\<close>, both at most \<open>2^128 - 1\<close>,
  \<open>encodeExchangeRate\<close> returns a rate and \<open>decodeExchangeRate\<close> of that rate is
  \<open>(x1, x2)\<close>.
\<close>

theorem exchange_rate_round_trip:
  assumes "0 \<le> x1" and "x1 \<le> 2 ^ 128 - 1" and "0 \<le> x2" and "x2 \<le> 2 ^ 128 - 1"
  shows "\<exists>rate. encodeExchangeRate x1 x2 = Inr rate \<and> decodeExchangeRate rate = Inr (x1, x2)"
proof -
  let ?er = "push_bit 128 x1 + x2"
  have nn: "0 \<le> ?er" using assms(1,3) by simp
  have "x1 * 2 ^ 128 \<le> (2 ^ 128 - 1) * 2 ^ 128"
    using assms(2) by (simp add: mult_right_mono)
  then have ub: "?er < 2 ^ 256"
    using assms(4) by (simp add: push_bit_eq_mult)
  let ?rate = "''0x'' @ replicate (64 - length (evenHex (nat ?er))) CHR ''0'' @ evenHex (nat ?er)"
  have enc: "encodeExchangeRate x1 x2 = Inr ?rate"
    using assms toBytes32_eq [OF nn ub]
    by (simp add: encodeExchangeRate_def MaxUint128_def BN_shl_def)
  have "BN_from_string ?rate = Inr ?er"
    using BN_from_string_padded_hex [of _ "nat ?er"] nn by simp
  then have dec: "decodeExchangeRate ?rate = Inr (x1, x2)"
    using nn split_rate [OF assms(1,3,4)]
    by (simp add: decodeExchangeRate_def BN_shr_def BN_and_def MaxUint128_def)
  from enc dec show ?thesis by blast
qed

theorem exchange_rate_round_trip_witness:
  "(0::int) \<le> 3 \<and> (3::int) \<le> 2 ^ 128 - 1 \<and> (0::int) \<le> 1 \<and> (1::int) \<le> 2 ^ 128 - 1
   \<and> (\<exists>rate. encodeExchangeRate 3 1 = Inr rate \<and> decodeExchangeRate rate = Inr (3, 1))"
  using exchange_rate_round_trip [of 3 1] by simp

section \<open>Pool locations\<close>

lemma padTo62_eq: "padTo62 num = replicate (62 - length num) CHR ''0'' @ num"
proof (induction num rule: padTo62.induct)
  case (1 num)
  show ?case
  proof (cases "length num < 62")
    case True
    then have "padTo62 (CHR ''0'' # num) = replicate (62 - length (CHR ''0'' # num)) CHR ''0'' @ CHR ''0'' # num"
      using 1 by simp
    moreover have "62 - length num = Suc (62 - length (CHR ''0'' # num))"
      using True by simp
    ultimately show ?thesis
      using True by (simp add: padTo62.simps [of num] replicate_app_Cons_same)
  next
    case False
    then show ?thesis by (simp add: padTo62.simps [of num])
  qed
qed

lemma poolIDtoLocation_eq:
  assumes "0 \<le> poolID"
  shows "poolIDtoLocation poolID =
           ''0x03'' @ replicate (62 - length (evenHex (nat poolID))) CHR ''0'' @ evenHex (nat poolID)"
  using assms by (simp add: poolIDtoLocation_def BN_toHexString_def padTo62_eq)

lemma BN_toString_nonneg: "0 \<le> a \<Longrightarrow> BN_toString a = digitsOfNat 10 (nat a)"
  by (simp add: BN_toString_def)

lemma poolID_location_well_formed:
  assumes "0 \<le> poolID" and "poolID \<le> 2 ^ 248 - 1"
  shows "length (poolIDtoLocation poolID) = 66"
    and "locationToString keccak256 (poolIDtoLocation poolID) = Inr (''poolID '' @ BN_toString poolID)"
proof -
  let ?h = "evenHex (nat poolID)"
  have "nat poolID < 16 ^ 62"
    using assms by (simp add: nat_less_iff)
  then have len: "length ?h \<le> 62"
    by (intro evenHex_length_le) simp_all
  then show l: "length (poolIDtoLocation poolID) = 66"
    using assms(1) by (simp add: poolIDtoLocation_eq)
  have s4: "substring (poolIDtoLocation poolID) 0 4 = ''0x03''"
    using assms(1) by (simp add: poolIDtoLocation_eq substring_def)
  have s66: "substring (poolIDtoLocation poolID) 4 66 = replicate (62 - length ?h) CHR ''0'' @ ?h"
    using assms(1) len by (simp add: poolIDtoLocation_eq substring_def)
  show "locationToString keccak256 (poolIDtoLocation poolID) = Inr (''poolID '' @ BN_toString poolID)"
    using l s4 s66 assms(1) BN_from_string_padded_hex [of "62 - length ?h" "nat poolID"]
    by (simp add: locationToString_def)
qed

lemma poolIDtoLocation_over_length:
  assumes "2 ^ 248 - 1 < poolID"
  shows "66 < length (poolIDtoLocation poolID)"
proof -
  have p: "0 \<le> poolID" using assms by simp
  have "(16::nat) ^ 62 \<le> nat poolID"
    using assms by (simp add: le_nat_iff)
  then have "62 < length (digitsOfNat 16 (nat poolID))"
    by (rule length_digitsOfNat_16_ge)
  then have "62 < length (evenHex (nat poolID))"
    by (simp add: evenHex_def Let_def)
  then show ?thesis
    by (simp add: poolIDtoLocation_eq [OF p])
qed

text \<open>
  Claim C3, as stated, has \<open>poolIDtoLocation\<close> fail for every pool id above
  \<open>2^248 - 1\<close>. The function has no range check and no statement that throws: for the
  id \<open>2^248\<close> it returns a string of 68 characters.
\<close>

theorem poolIDtoLocation_counterexample:
  "poolIDtoLocation (2 ^ 248)
     = ''0x030100000000000000000000000000000000000000000000000000000000000000''
   \<and> length (poolIDtoLocation (2 ^ 248)) = 68"
  by (simp add: poolIDtoLocation_def BN_toHexString_def evenHex_def digitsOfNat.simps
      digitChar_def padTo62.simps)

text \<open>
  Claim C3, amended. \<open>encodeExchangeRate\<close> fails at once, with the range error and no
  other result, for every \<open>x1\<close> or \<open>x2\<close> above \<open>2^128 - 1\<close>. \<open>poolIDtoLocation\<close> checks
  no range and signals no error; for a pool id from 0 to \<open>2^248 - 1\<close> it returns a
  location of 66 characters, which \<open>locationToString\<close> describes as that pool.
\<close>

theorem encoding_range_errors:
  "(MaxUint128 < x1 \<or> MaxUint128 < x2
      \<longrightarrow> encodeExchangeRate x1 x2 = Inl (CannotEncodeExchangeRate x1 x2))
   \<and> MaxUint128 = 2 ^ 128 - 1
   \<and> (0 \<le> poolID \<and> poolID \<le> 2 ^ 248 - 1
      \<longrightarrow> length (poolIDtoLocation poolID) = 66
        \<and> locationToString keccak256 (poolIDtoLocation poolID)
            = Inr (''poolID '' @ BN_toString poolID))"
  by (simp add: encodeExchangeRate_def MaxUint128_def poolID_location_well_formed)

theorem encoding_range_errors_witness:
  "encodeExchangeRate (2 ^ 128) 0 = Inl (CannotEncodeExchangeRate (2 ^ 128) 0)
   \<and> encodeExchangeRate 0 (2 ^ 128) = Inl (CannotEncodeExchangeRate 0 (2 ^ 128))
   \<and> (\<forall>keccak256. locationToString keccak256 (poolIDtoLocation 5) = Inr ''poolID 5'')"
proof -
  have 1: "encodeExchangeRate (2 ^ 128) 0 = Inl (CannotEncodeExchangeRate (2 ^ 128) 0)"
    using encoding_range_errors [of "2 ^ 128" 0 0 id] by (simp add: MaxUint128_def)
  have 2: "encodeExchangeRate 0 (2 ^ 128) = Inl (CannotEncodeExchangeRate 0 (2 ^ 128))"
    using encoding_range_errors [of 0 "2 ^ 128" 0 id] by (simp add: MaxUint128_def)
  have 3: "locationToString keccak256 (poolIDtoLocation 5) = Inr ''poolID 5''" for keccak256
    using encoding_range_errors [of 0 0 5 keccak256]
    by (simp add: BN_toString_def digitsOfNat.simps digitChar_def)
  from 1 2 3 show ?thesis by blast
qed

section \<open>Relative amounts\<close>

lemma appendZeros_eq:
  "appendZeros i decimals s = s @ replicate (nat (decimals - i)) CHR ''0''"
proof (induction i decimals s rule: appendZeros.induct)
  case (1 i decimals s)
  show ?case
  proof (cases "i < decimals")
    case True
    then have "appendZeros (i + 1) decimals (s @ ''0'')
                 = (s @ ''0'') @ replicate (nat (decimals - (i + 1))) CHR ''0''"
      using 1 by simp
    moreover have "nat (decimals - i) = Suc (nat (decimals - (i + 1)))"
      using True by simp
    ultimately show ?thesis
      using True by (simp add: appendZeros.simps [of i decimals s])
  next
    case False
    then show ?thesis by (simp add: appendZeros.simps [of i decimals s])
  qed
qed

lemma parse_dec_zeros:
  "parseDigits 10 decDigitValue acc (replicate k CHR ''0'') = Some (acc * 10 ^ k)"
  by (induction k arbitrary: acc) (simp_all add: decDigitValue_def)

lemma BN_from_string_one_zeros:
  "BN_from_string (''1'' @ replicate k CHR ''0'') = Inr (10 ^ k)"
  by (simp add: BN_from_string_def decDigitValue_def parse_dec_zeros)

lemma decimalsToAmount_eq:
  assumes "0 \<le> decimals" and "decimals < MAX_SAFE"
  shows "decimalsToAmount decimals = Inr (10 ^ nat decimals)"
proof -
  have "\<bar>decimals\<bar> < 2 ^ 53"
    using assms by (simp add: MAX_SAFE_def)
  then show ?thesis
    using assms BN_from_string_one_zeros [of "nat decimals"]
    by (simp add: decimalsToAmount_def BN_from_number_def BN_toNumber_def MAX_SAFE_def
        appendZeros_eq)
qed

lemma calculateRelativeAmounts_eq:
  assumes "0 < amountA" and "0 < amountB"
    and "0 \<le> decimalsA" and "decimalsA < MAX_SAFE"
    and "0 \<le> decimalsB" and "decimalsB < MAX_SAFE"
  shows "calculateRelativeAmounts amountA decimalsA amountB decimalsB =
           Inr \<lparr>amountAperB = (amountA * 10 ^ nat decimalsB) div amountB,
                amountBperA = (amountB * 10 ^ nat decimalsA) div amountA\<rparr>"
proof -
  have 1: "0 \<le> amountA * 10 ^ nat decimalsB" using assms(1) by simp
  have 2: "0 \<le> amountB * 10 ^ nat decimalsA" using assms(2) by simp
  show ?thesis
    using BN_div_nonneg [OF 1 assms(2)] BN_div_nonneg [OF 2 assms(1)]
    by (simp add: calculateRelativeAmounts_def decimalsToAmount_eq [OF assms(3,4)]
        decimalsToAmount_eq [OF assms(5,6)])
qed

lemma calculateRelativeAmounts_zero_fails:
  assumes "amountA = 0 \<or> amountB = 0"
  shows "\<exists>e. calculateRelativeAmounts amountA decimalsA amountB decimalsB = Inl e"
  using assms
  by (auto simp: calculateRelativeAmounts_def BN_div_def split: sum.splits)

lemma calculateRelativeAmounts_zero_division:
  assumes "amountA = 0 \<or> amountB = 0"
    and "0 \<le> decimalsA" and "decimalsA < MAX_SAFE"
    and "0 \<le> decimalsB" and "decimalsB < MAX_SAFE"
  shows "calculateRelativeAmounts amountA decimalsA amountB decimalsB = Inl DivisionByZero"
  using assms(1)
  by (auto simp: calculateRelativeAmounts_def BN_div_def decimalsToAmount_eq [OF assms(2,3)]
      decimalsToAmount_eq [OF assms(4,5)])

text \<open>
  Claim C9. For \<open>amountA > 0\<close> and \<open>amountB > 0\<close> and decimals that are safe integers
  of JavaScript (\<open>0 \<le> decimals < 2^53 - 1\<close>, the numbers \<^verbatim>\<open>BigNumber.from\<close> takes),
  \<open>calculateRelativeAmounts\<close> returns \<open>amountAperB = floor(amountA * 10^decimalsB / amountB)\<close>
  and \<open>amountBperA = floor(amountB * 10^decimalsA / amountA)\<close>. When \<open>amountA = 0\<close> or
  \<open>amountB = 0\<close> it fails, whatever the decimals, and with the division-by-zero fault
  when the decimals are safe integers; it never returns 0 then.
\<close>

theorem relative_amounts:
  "(0 < amountA \<and> 0 < amountB \<and> 0 \<le> decimalsA \<and> decimalsA < MAX_SAFE
      \<and> 0 \<le> decimalsB \<and> decimalsB < MAX_SAFE
      \<longrightarrow> calculateRelativeAmounts amountA decimalsA amountB decimalsB =
            Inr \<lparr>amountAperB =
                   \<lfloor>real_of_int (amountA * 10 ^ nat decimalsB) / real_of_int amountB\<rfloor>,
                 amountBperA =
                   \<lfloor>real_of_int (amountB * 10 ^ nat decimalsA) / real_of_int amountA\<rfloor>\<rparr>)
   \<and> (amountA = 0 \<or> amountB = 0
      \<longrightarrow> (\<exists>e. calculateRelativeAmounts amountA decimalsA amountB decimalsB = Inl e))
   \<and> ((amountA = 0 \<or> amountB = 0) \<and> 0 \<le> decimalsA \<and> decimalsA < MAX_SAFE
      \<and> 0 \<le> decimalsB \<and> decimalsB < MAX_SAFE
      \<longrightarrow> calculateRelativeAmounts amountA decimalsA amountB decimalsB = Inl DivisionByZero)
   \<and> MAX_SAFE = 2 ^ 53 - 1"
proof (intro conjI impI)
  assume a: "0 < amountA \<and> 0 < amountB \<and> 0 \<le> decimalsA \<and> decimalsA < MAX_SAFE
      \<and> 0 \<le> decimalsB \<and> decimalsB < MAX_SAFE"
  then have "calculateRelativeAmounts amountA decimalsA amountB decimalsB =
           Inr \<lparr>amountAperB = (amountA * 10 ^ nat decimalsB) div amountB,
                amountBperA = (amountB * 10 ^ nat decimalsA) div amountA\<rparr>"
    by (intro calculateRelativeAmounts_eq) simp_all
  then show "calculateRelativeAmounts amountA decimalsA amountB decimalsB =
            Inr \<lparr>amountAperB =
                   \<lfloor>real_of_int (amountA * 10 ^ nat decimalsB) / real_of_int amountB\<rfloor>,
                 amountBperA =
                   \<lfloor>real_of_int (amountB * 10 ^ nat decimalsA) / real_of_int amountA\<rfloor>\<rparr>"
    by (simp only: floor_divide_of_int_eq)
next
  assume "amountA = 0 \<or> amountB = 0"
  then show "\<exists>e. calculateRelativeAmounts amountA decimalsA amountB decimalsB = Inl e"
    by (rule calculateRelativeAmounts_zero_fails)
next
  assume "(amountA = 0 \<or> amountB = 0) \<and> 0 \<le> decimalsA \<and> decimalsA < MAX_SAFE
      \<and> 0 \<le> decimalsB \<and> decimalsB < MAX_SAFE"
  then show "calculateRelativeAmounts amountA decimalsA amountB decimalsB = Inl DivisionByZero"
    by (intro calculateRelativeAmounts_zero_division) simp_all
next
  show "MAX_SAFE = 2 ^ 53 - 1" by (simp add: MAX_SAFE_def)
qed

theorem relative_amounts_witness:
  "calculateRelativeAmounts 100 18 200 6
     = Inr \<lparr>amountAperB = 500000, amountBperA = 2000000000000000000\<rparr>
   \<and> calculateRelativeAmounts 100 18 0 6 = Inl DivisionByZero
   \<and> calculateRelativeAmounts 0 18 200 6 = Inl DivisionByZero"
proof -
  have f1: "\<lfloor>(100000000 / 200 :: real)\<rfloor> = 500000"
    using floor_divide_of_int_eq [of 100000000 200, where ?'a = real] by simp
  have f2: "\<lfloor>(200000000000000000000 / 100 :: real)\<rfloor> = 2000000000000000000"
    using floor_divide_of_int_eq [of 200000000000000000000 100, where ?'a = real] by simp
  have 1: "calculateRelativeAmounts 100 18 200 6
     = Inr \<lparr>amountAperB = 500000, amountBperA = 2000000000000000000\<rparr>"
    using relative_amounts [of 100 200 18 6] f1 f2 by (simp add: MAX_SAFE_def)
  have 2: "calculateRelativeAmounts 100 18 0 6 = Inl DivisionByZero"
    using relative_amounts [of 100 0 18 6] by (simp add: MAX_SAFE_def)
  have 3: "calculateRelativeAmounts 0 18 200 6 = Inl DivisionByZero"
    using relative_amounts [of 0 200 18 6] by (simp add: MAX_SAFE_def)
  from 1 2 3 show ?thesis by simp
qed

section \<open>Describing a location\<close>

lemma getChecksumAddress_shape:
  "take 2 (getChecksumAddress keccak256 address) = ''0x''"
  "length (getChecksumAddress keccak256 address) = 2 + (length address - 2)"
  by (simp_all add: getChecksumAddress_def Let_def)

lemma not_hex_x: "\<not> isHexDigit CHR ''x''" "\<not> isUpperHexLetter CHR ''x''"
  "\<not> isLowerHexLetter CHR ''x''" "\<not> isUpperHexLetter CHR ''0''" "\<not> isLowerHexLetter CHR ''0''"
  by (simp_all add: isHexDigit_def hexDigitValue_def isUpperHexLetter_def isLowerHexLetter_def)

lemma mixedCase_0x: "mixedCase (CHR ''0'' # CHR ''x'' # s) = mixedCase s"
  by (simp add: mixedCase_def not_hex_x)

lemma getAddress_0x:
  "getAddress keccak256 (CHR ''0'' # CHR ''x'' # s) =
     (if length s = 40 \<and> list_all isHexDigit s then
        (if mixedCase s \<and> getChecksumAddress keccak256 (''0x'' @ s) \<noteq> ''0x'' @ s
         then Inl BadAddressChecksum
         else Inr (getChecksumAddress keccak256 (''0x'' @ s)))
      else Inl InvalidAddress)"
  by (simp add: getAddress_def isAddressString_def substring_def not_hex_x mixedCase_0x Let_def)

lemma parse_hex_total:
  "list_all isHexDigit s \<Longrightarrow> \<exists>n. parseDigits 16 hexDigitValue acc s = Some n"
  by (induction s arbitrary: acc) (auto simp: isHexDigit_def)

lemma BN_from_string_0x:
  "s \<noteq> [] \<Longrightarrow> BN_from_string (CHR ''0'' # CHR ''x'' # s) =
     (if list_all isHexDigit s
      then (case parseDigits 16 hexDigitValue 0 s of
              Some n \<Rightarrow> Inr (int n) | None \<Rightarrow> Inl InvalidBigNumberString)
      else Inl InvalidBigNumberString)"
  by (simp add: BN_from_string_def decDigitValue_def split: option.splits)


lemma locationToString_address:
  assumes "length loc = 66" and "substring loc 0 4 = tag"
    and "tag = ''0x01'' \<or> tag = ''0x02''"
    and "substring loc 4 26 = ''0000000000000000000000''"
  shows "locationToString keccak256 loc =
           (if list_all isHexDigit (substring loc 26 66) then
              (if mixedCase (substring loc 26 66)
                  \<and> getChecksumAddress keccak256 (''0x'' @ substring loc 26 66)
                      \<noteq> ''0x'' @ substring loc 26 66
               then Inl BadAddressChecksum
               else Inr (getChecksumAddress keccak256 (''0x'' @ substring loc 26 66)
                         @ (if tag = ''0x01'' then '' external balance''
                            else '' internal balance'')))
            else Inl InvalidAddress)"
proof -
  have l: "length (substring loc 26 66) = 40"
    using assms(1) by (simp add: substring_def)
  show ?thesis
    using assms(3)
    by (auto simp: locationToString_def assms(1,2,4) getAddress_0x l)
qed

lemma locationToString_pool:
  assumes "length loc = 66" and "substring loc 0 4 = ''0x03''"
  shows "locationToString keccak256 loc =
           (if list_all isHexDigit (substring loc 4 66)
            then (case parseDigits 16 hexDigitValue 0 (substring loc 4 66) of
                    Some n \<Rightarrow> Inr (''poolID '' @ digitsOfNat 10 n)
                  | None \<Rightarrow> Inl InvalidBigNumberString)
            else Inl InvalidBigNumberString)"
proof -
  have "length (substring loc 4 66) = 62"
    using assms(1) by (simp add: substring_def)
  then have "substring loc 4 66 \<noteq> []" by auto
  then show ?thesis
    by (simp add: locationToString_def assms BN_from_string_0x BN_toString_def
        split: option.splits)
qed

lemma locationToString_invalid:
  assumes "length loc \<noteq> 66
     \<or> substring loc 0 4 \<notin> {''0x01'', ''0x02'', ''0x03''}
     \<or> (substring loc 0 4 \<in> {''0x01'', ''0x02''}
         \<and> substring loc 4 26 \<noteq> ''0000000000000000000000'')"
  shows "locationToString keccak256 loc = Inr (invalidLocation loc)"
  using assms by (auto simp: locationToString_def)


lemma checksum_not_invalid:
  "getChecksumAddress keccak256 a @ suffix \<noteq> invalidLocation loc"
  "take 17 (getChecksumAddress keccak256 a @ suffix) \<noteq> ''invalid location ''"
  by (simp_all add: getChecksumAddress_def invalidLocation_def Let_def)

text \<open>
  An address written with letters of both cases must be its own checksummed form, and the
  checksum only reads the address in lower case: of two such spellings of one address at
  least one is refused, whatever the hash function.
\<close>

lemma getChecksumAddress_lower:
  "map toLowerCaseChar a = map toLowerCaseChar b
     \<Longrightarrow> getChecksumAddress keccak256 a = getChecksumAddress keccak256 b"
  by (simp add: getChecksumAddress_def)

lemma locationToString_checksum_raises:
  "locationToString keccak256
     ''0x010000000000000000000000aB00000000000000000000000000000000000000''
     = Inl BadAddressChecksum
   \<or> locationToString keccak256
     ''0x010000000000000000000000Ab00000000000000000000000000000000000000''
     = Inl BadAddressChecksum"
proof -
  let ?a = "''0xaB00000000000000000000000000000000000000''"
  let ?b = "''0xAb00000000000000000000000000000000000000''"
  have "getChecksumAddress keccak256 ?a = getChecksumAddress keccak256 ?b"
    by (rule getChecksumAddress_lower) (simp add: toLowerCaseChar_def char_of_def bit_0)
  then have "getChecksumAddress keccak256 ?a \<noteq> ?a \<or> getChecksumAddress keccak256 ?b \<noteq> ?b"
    by auto
  then show ?thesis
    by (auto simp: locationToString_address [OF _ refl] substring_def isHexDigit_def
        hexDigitValue_def mixedCase_def isUpperHexLetter_def isLowerHexLetter_def)
qed

text \<open>
  Claim C7, as stated, has \<open>locationToString\<close> never raise. It hands the payload to
  \<^verbatim>\<open>getAddress\<close> and \<^verbatim>\<open>BigNumber.from\<close> and catches nothing: on a string of 66 characters
  with the tag \<^verbatim>\<open>0x03\<close> and a payload that is not all hex digits, \<^verbatim>\<open>BigNumber.from\<close> throws.
\<close>

theorem locationToString_counterexample:
  "\<forall>keccak256.
     locationToString keccak256
       ''0x030000000000000000000000000000000000000000000000000000000000000g''
       = Inl InvalidBigNumberString"
  by (simp add: locationToString_pool substring_def isHexDigit_def hexDigitValue_def)

text \<open>
  Claim C7, amended. \<open>locationToString\<close> returns the invalid-location indication
  \<open>invalid location <loc>\<close>, which no valid description starts with, exactly when the
  input is not exactly 66 characters (32 bytes as hex after \<^verbatim>\<open>0x\<close>), the tag is not one of
  \<^verbatim>\<open>0x01\<close>, \<^verbatim>\<open>0x02\<close>, \<^verbatim>\<open>0x03\<close>, or under the tags \<^verbatim>\<open>0x01\<close> and \<^verbatim>\<open>0x02\<close> one of the 22
  reserved characters (11 bytes) after the tag is not \<^verbatim>\<open>0\<close>. On any other input it returns
  the checksummed address with \<open>external balance\<close> or \<open>internal balance\<close>, or
  \<open>poolID\<close> with the decimal id, when the payload is hex digits and, for an address with
  letters of both cases, the address is its own checksummed form; and it raises exactly
  in the remaining cases.
\<close>

theorem locationToString_results:
  "(locationToString keccak256 loc = Inr (invalidLocation loc)
      \<longleftrightarrow> (length loc \<noteq> 66
           \<or> substring loc 0 4 \<notin> {''0x01'', ''0x02'', ''0x03''}
           \<or> (substring loc 0 4 \<in> {''0x01'', ''0x02''}
               \<and> substring loc 4 26 \<noteq> ''0000000000000000000000'')))
   \<and> (\<forall>s. locationToString keccak256 loc = Inr s \<and> take 17 s = ''invalid location ''
          \<longrightarrow> s = invalidLocation loc)
   \<and> (length loc = 66 \<and> substring loc 0 4 = ''0x01''
        \<and> substring loc 4 26 = ''0000000000000000000000''
        \<and> list_all isHexDigit (substring loc 26 66)
        \<and> (mixedCase (substring loc 26 66)
             \<longrightarrow> getChecksumAddress keccak256 (''0x'' @ substring loc 26 66)
                   = ''0x'' @ substring loc 26 66)
      \<longrightarrow> locationToString keccak256 loc
            = Inr (getChecksumAddress keccak256 (''0x'' @ substring loc 26 66)
                   @ '' external balance''))
   \<and> (length loc = 66 \<and> substring loc 0 4 = ''0x02''
        \<and> substring loc 4 26 = ''0000000000000000000000''
        \<and> list_all isHexDigit (substring loc 26 66)
        \<and> (mixedCase (substring loc 26 66)
             \<longrightarrow> getChecksumAddress keccak256 (''0x'' @ substring loc 26 66)
                   = ''0x'' @ substring loc 26 66)
      \<longrightarrow> locationToString keccak256 loc
            = Inr (getChecksumAddress keccak256 (''0x'' @ substring loc 26 66)
                   @ '' internal balance''))
   \<and> (length loc = 66 \<and> substring loc 0 4 = ''0x03''
        \<and> list_all isHexDigit (substring loc 4 66)
      \<longrightarrow> (\<exists>n. parseDigits 16 hexDigitValue 0 (substring loc 4 66) = Some n
                \<and> locationToString keccak256 loc = Inr (''poolID '' @ digitsOfNat 10 n)))
   \<and> ((\<exists>e. locationToString keccak256 loc = Inl e)
      \<longleftrightarrow> length loc = 66
          \<and> ((substring loc 0 4 \<in> {''0x01'', ''0x02''}
                \<and> substring loc 4 26 = ''0000000000000000000000''
                \<and> (\<not> list_all isHexDigit (substring loc 26 66)
                    \<or> (mixedCase (substring loc 26 66)
                        \<and> getChecksumAddress keccak256 (''0x'' @ substring loc 26 66)
                            \<noteq> ''0x'' @ substring loc 26 66)))
              \<or> (substring loc 0 4 = ''0x03''
                  \<and> \<not> list_all isHexDigit (substring loc 4 66))))"
proof -
  let ?tag = "substring loc 0 4"
  let ?zeros = "''0000000000000000000000''"
  consider
      (invalid) "length loc \<noteq> 66 \<or> ?tag \<notin> {''0x01'', ''0x02'', ''0x03''}
                  \<or> (?tag \<in> {''0x01'', ''0x02''} \<and> substring loc 4 26 \<noteq> ?zeros)"
    | (address) "length loc = 66" "?tag = ''0x01'' \<or> ?tag = ''0x02''"
                "substring loc 4 26 = ?zeros"
    | (pool) "length loc = 66" "?tag = ''0x03''"
    by blast
  then show ?thesis
  proof cases
    case invalid
    have r: "locationToString keccak256 loc = Inr (invalidLocation loc)"
      by (rule locationToString_invalid [OF invalid])
    from invalid show ?thesis
      unfolding r by auto
  next
    case address
    have r: "locationToString keccak256 loc =
           (if list_all isHexDigit (substring loc 26 66) then
              (if mixedCase (substring loc 26 66)
                  \<and> getChecksumAddress keccak256 (''0x'' @ substring loc 26 66)
                      \<noteq> ''0x'' @ substring loc 26 66
               then Inl BadAddressChecksum
               else Inr (getChecksumAddress keccak256 (''0x'' @ substring loc 26 66)
                         @ (if ?tag = ''0x01'' then '' external balance''
                            else '' internal balance'')))
            else Inl InvalidAddress)"
      by (rule locationToString_address [OF address(1) refl address(2,3)])
    from address show ?thesis
      unfolding r using checksum_not_invalid [of keccak256 "''0x'' @ substring loc 26 66"]
      by auto
  next
    case pool
    have r: "locationToString keccak256 loc =
           (if list_all isHexDigit (substring loc 4 66)
            then (case parseDigits 16 hexDigitValue 0 (substring loc 4 66) of
                    Some n \<Rightarrow> Inr (''poolID '' @ digitsOfNat 10 n)
                  | None \<Rightarrow> Inl InvalidBigNumberString)
            else Inl InvalidBigNumberString)"
      by (rule locationToString_pool [OF pool])
    show ?thesis
    proof (cases "list_all isHexDigit (substring loc 4 66)")
      case True
      then obtain n where n: "parseDigits 16 hexDigitValue 0 (substring loc 4 66) = Some n"
        using parse_hex_total by blast
      from pool True show ?thesis
        unfolding r n by (auto simp: invalidLocation_def)
    next
      case False
      from pool False show ?thesis
        unfolding r by auto
    qed
  qed
qed


theorem locationToString_results_witness:
  "(\<forall>keccak256.
      locationToString keccak256
        ''0x0400000000000000000000000000000000000000000000000000000000000001''
      = Inr (invalidLocation
               ''0x0400000000000000000000000000000000000000000000000000000000000001''))
   \<and> (\<forall>keccak256.
      locationToString keccak256
        ''0x030000000000000000000000000000000000000000000000000000000000000f''
      = Inr ''poolID 15'')
   \<and> (\<forall>keccak256. \<exists>e.
      locationToString keccak256
        ''0x010000000000000000000000zz00000000000000000000000000000000000000''
      = Inl e)
   \<and> locationToString (\<lambda>bytes. [])
        ''0x0100000000000000000000005aaeb6053f3e94c9b9a09f33669435e7ef1beaed''
      = Inr ''0x5aaeb6053f3e94c9b9a09f33669435e7ef1beaed external balance''"
proof -
  have 1: "locationToString keccak256
        ''0x0400000000000000000000000000000000000000000000000000000000000001''
      = Inr (invalidLocation
               ''0x0400000000000000000000000000000000000000000000000000000000000001'')"
    for keccak256
    using locationToString_results
      [of keccak256 "''0x0400000000000000000000000000000000000000000000000000000000000001''"]
    by (simp add: substring_def)
  have 2: "locationToString keccak256
        ''0x030000000000000000000000000000000000000000000000000000000000000f''
      = Inr ''poolID 15''"
    for keccak256
    using locationToString_results
      [of keccak256 "''0x030000000000000000000000000000000000000000000000000000000000000f''"]
    by (simp add: substring_def isHexDigit_def hexDigitValue_def digitsOfNat.simps digitChar_def)
  have 3: "\<exists>e. locationToString keccak256
        ''0x010000000000000000000000zz00000000000000000000000000000000000000''
      = Inl e"
    for keccak256
    using locationToString_results
      [of keccak256 "''0x010000000000000000000000zz00000000000000000000000000000000000000''"]
    by (simp add: substring_def isHexDigit_def hexDigitValue_def)
  have 4: "locationToString (\<lambda>bytes. [])
        ''0x0100000000000000000000005aaeb6053f3e94c9b9a09f33669435e7ef1beaed''
      = Inr ''0x5aaeb6053f3e94c9b9a09f33669435e7ef1beaed external balance''"
    using locationToString_results
      [of "\<lambda>bytes. []" "''0x0100000000000000000000005aaeb6053f3e94c9b9a09f33669435e7ef1beaed''"]
    by (simp add: substring_def isHexDigit_def hexDigitValue_def mixedCase_def
        isUpperHexLetter_def isLowerHexLetter_def getChecksumAddress_def hashNibble_def
        toLowerCaseChar_def)
  from 1 2 3 4 show ?thesis by blast
qed

end
